theory Spec2Isabelle
  imports Main
begin

section \<open>Strings\<close>

text \<open>
  Strings are lists of code units below 256 (the Latin-1 range, which holds the German
  umlauts of club names). \<open>trim\<close> removes the ECMAScript white space of that range at both
  ends; \<open>toLowerCase\<close> maps A-Z and the accented capitals 0xC0-0xDE (without the
  multiplication sign 0xD7) to their small letters, as String.prototype.toLowerCase does
  on these code units.
\<close>

definition isWhiteSpace :: "char \<Rightarrow> bool" where
  "isWhiteSpace c \<longleftrightarrow> (of_char c :: nat) \<in> {9, 10, 11, 12, 13, 32, 160}"

definition trim :: "string \<Rightarrow> string" where
  "trim s = rev (dropWhile isWhiteSpace (rev (dropWhile isWhiteSpace s)))"

definition isUpperCase :: "char \<Rightarrow> bool" where
  "isUpperCase c \<longleftrightarrow>
     (let n = (of_char c :: nat)
      in (65 \<le> n \<and> n \<le> 90) \<or> (192 \<le> n \<and> n \<le> 222 \<and> n \<noteq> 215))"

definition toLowerChar :: "char \<Rightarrow> char" where
  "toLowerChar c = (if isUpperCase c then char_of ((of_char c :: nat) + 32) else c)"

definition toLowerCase :: "string \<Rightarrow> string" where
  "toLowerCase s = map toLowerChar s"

fun joinWith :: "string \<Rightarrow> string list \<Rightarrow> string" where
  "joinWith sep [] = []"
| "joinWith sep [x] = x"
| "joinWith sep (x # y # ys) = x @ sep @ joinWith sep (y # ys)"

section \<open>Data model (shared/schema.ts)\<close>

datatype EventSource = BFV | MANUAL

datatype EventStatus = ACTIVE | CANCELLED | ARCHIVED

datatype EventType = spiel | training | turnier | vereinsevent | platzsperrung | sonstiges

datatype Team = herren | herren2 | a_jugend | b_jugend | c_jugend | d_jugend | e_jugend
  | f_jugend | g_jugend | damen | alte_herren

datatype Field = a_platz | b_platz

fun fieldStr :: "Field \<Rightarrow> string" where
  "fieldStr a_platz = ''a-platz''"
| "fieldStr b_platz = ''b-platz''"

type_synonym uuid = nat

text \<open>
  A row of the table \<open>calendar_events\<close>. A nullable column is an option. The two time
  stamps \<open>createdAt\<close> and \<open>updatedAt\<close> are left out: the import never reads them.
\<close>

record CalendarEventDb =
  db_id :: uuid
  db_source :: EventSource
  db_externalId :: "string option"
  db_recurringGroupId :: "string option"
  db_type :: EventType
  db_title :: string
  db_team :: "Team option"
  db_teamHome :: "string option"
  db_teamAway :: "string option"
  db_field :: "Field option"
  db_date :: string
  db_startTime :: string
  db_endTime :: string
  db_isHomeGame :: "bool option"
  db_opponent :: "string option"
  db_location :: "string option"
  db_competition :: "string option"
  db_description :: "string option"
  db_rawPayload :: "string option"
  db_status :: EventStatus

text \<open>The interface \<open>CalendarEvent\<close> of the application layer.\<close>

record CalendarEvent =
  ev_id :: uuid
  ev_title :: string
  ev_type :: EventType
  ev_team :: "Team option"
  ev_field :: "Field option"
  ev_date :: string
  ev_startTime :: string
  ev_endTime :: string
  ev_isHomeGame :: "bool option"
  ev_opponent :: "string option"
  ev_location :: "string option"
  ev_competition :: "string option"
  ev_description :: "string option"
  ev_bfvImported :: bool
  ev_bfvMatchId :: "string option"
  ev_recurringGroupId :: "string option"

record FieldMappingDb =
  fm_id :: uuid
  fm_team :: Team
  fm_eventType :: EventType
  fm_defaultField :: Field

record BfvImportSummary =
  createdCount :: nat
  updatedCount :: nat
  unchangedCount :: nat
  archivedCount :: nat
  errorCount :: nat
  errors :: "string list"

record BfvImportHistoryDb =
  h_id :: uuid
  h_createdCount :: nat
  h_updatedCount :: nat
  h_unchangedCount :: nat
  h_archivedCount :: nat
  h_errorCount :: nat
  h_fileName :: "string option"
  h_notes :: "string option"

record ParsedBfvMatch =
  m_externalId :: string
  m_date :: string
  m_startTime :: string
  m_endTime :: string
  m_teamHome :: string
  m_teamAway :: string
  m_team :: Team
  m_isHomeGame :: bool
  m_opponent :: string
  m_competition :: string
  m_location :: "string option"
  m_rawData :: "string option"

section \<open>The database\<close>

text \<open>
  The state the import runs against: the three tables it touches, the supply of
  \<open>randomUUID\<close>, and a fault schedule. Every round trip to the database takes the next
  entry of the schedule; \<open>Some msg\<close> makes that call throw an error with this message
  (a lost connection, a value the column rejects), \<open>None\<close> or an exhausted schedule lets it
  run. A select without ORDER BY returns the rows in table order, and the
  destructuring \<open>const [x] = ...\<close> takes the first of them.
\<close>

record world =
  calendarEvents :: "CalendarEventDb list"
  fieldMappings :: "FieldMappingDb list"
  importHistory :: "BfvImportHistoryDb list"
  uuids :: uuid
  faults :: "string option list"

type_synonym 'a io = "world \<Rightarrow> (string + 'a) \<times> world"

definition dbCall :: "unit io" where
  "dbCall w =
     (case faults w of
        [] \<Rightarrow> (Inr (), w)
      | None # fs \<Rightarrow> (Inr (), w\<lparr>faults := fs\<rparr>)
      | Some msg # fs \<Rightarrow> (Inl msg, w\<lparr>faults := fs\<rparr>))"

definition andThen :: "'a io \<Rightarrow> ('a \<Rightarrow> 'b io) \<Rightarrow> 'b io" where
  "andThen f g w = (case f w of (Inl e, w') \<Rightarrow> (Inl e, w') | (Inr x, w') \<Rightarrow> g x w')"

definition randomUUID :: "world \<Rightarrow> uuid \<times> world" where
  "randomUUID w = (uuids w, w\<lparr>uuids := Suc (uuids w)\<rparr>)"

text \<open>
  The constraints the schema declares on \<open>calendar_events\<close>: the primary key \<open>id\<close> and
  \<open>unique(source, externalId)\<close>, where a NULL external id never conflicts.
\<close>

definition externalKeys :: "CalendarEventDb list \<Rightarrow> (EventSource \<times> string) list" where
  "externalKeys rows =
     List.map_filter (\<lambda>r. map_option (Pair (db_source r)) (db_externalId r)) rows"

definition constraintsOk :: "CalendarEventDb list \<Rightarrow> bool" where
  "constraintsOk rows \<longleftrightarrow> distinct (map db_id rows) \<and> distinct (externalKeys rows)"

definition commitCalendarEvents :: "CalendarEventDb list \<Rightarrow> unit io" where
  "commitCalendarEvents rows w =
     (if \<not> distinct (map db_id rows)
      then (Inl ''duplicate key value violates unique constraint calendar_events_pkey'', w)
      else if \<not> distinct (externalKeys rows)
      then (Inl ''duplicate key value violates unique constraint unique_bfv_external'', w)
      else (Inr (), w\<lparr>calendarEvents := rows\<rparr>))"

definition insertCalendarEvent :: "CalendarEventDb \<Rightarrow> unit io" where
  "insertCalendarEvent row =
     andThen dbCall (\<lambda>_ w. commitCalendarEvents (calendarEvents w @ [row]) w)"

definition updateCalendarEventWhereId ::
  "uuid \<Rightarrow> (CalendarEventDb \<Rightarrow> CalendarEventDb) \<Rightarrow> unit io" where
  "updateCalendarEventWhereId i f =
     andThen dbCall (\<lambda>_ w.
       commitCalendarEvents (map (\<lambda>r. if db_id r = i then f r else r) (calendarEvents w)) w)"

definition selectFirst :: "(CalendarEventDb \<Rightarrow> bool) \<Rightarrow> CalendarEventDb option io" where
  "selectFirst P = andThen dbCall (\<lambda>_ w. (Inr (find P (calendarEvents w)), w))"

section \<open>dbStorage\<close>

definition dbEventToCalendarEvent :: "CalendarEventDb \<Rightarrow> CalendarEvent" where
  "dbEventToCalendarEvent dbEvent =
     \<lparr> ev_id = db_id dbEvent,
       ev_title = db_title dbEvent,
       ev_type = db_type dbEvent,
       ev_team = db_team dbEvent,
       ev_field = db_field dbEvent,
       ev_date = db_date dbEvent,
       ev_startTime = db_startTime dbEvent,
       ev_endTime = db_endTime dbEvent,
       ev_isHomeGame = db_isHomeGame dbEvent,
       ev_opponent = db_opponent dbEvent,
       ev_location = db_location dbEvent,
       ev_competition = db_competition dbEvent,
       ev_description = db_description dbEvent,
       ev_bfvImported = (db_source dbEvent = BFV),
       ev_bfvMatchId = db_externalId dbEvent,
       ev_recurringGroupId = db_recurringGroupId dbEvent \<rparr>"

definition getCalendarEventByBfvId :: "string \<Rightarrow> CalendarEvent option io" where
  "getCalendarEventByBfvId bfvMatchId =
     andThen (selectFirst (\<lambda>r. db_source r = BFV \<and> db_externalId r = Some bfvMatchId))
       (\<lambda>event w. (Inr (map_option dbEventToCalendarEvent event), w))"

definition getBfvEventIds :: "string list io" where
  "getBfvEventIds =
     andThen dbCall (\<lambda>_ w.
       (Inr (List.map_filter db_externalId
              (filter (\<lambda>r. db_source r = BFV \<and> db_status r = ACTIVE) (calendarEvents w))), w))"

definition getDefaultField :: "Team \<Rightarrow> EventType \<Rightarrow> Field option io" where
  "getDefaultField team eventType =
     andThen dbCall (\<lambda>_ w.
       (Inr (map_option fm_defaultField
              (find (\<lambda>fm. fm_team fm = team \<and> fm_eventType fm = eventType) (fieldMappings w))),
        w))"

definition createImportHistory :: "BfvImportSummary \<Rightarrow> string option \<Rightarrow> unit io" where
  "createImportHistory summary fileName w =
     (case randomUUID w of (i, w1) \<Rightarrow>
        andThen dbCall (\<lambda>_ w2.
          (Inr (), w2\<lparr>importHistory := importHistory w2 @
             [\<lparr> h_id = i,
                h_createdCount = createdCount summary,
                h_updatedCount = updatedCount summary,
                h_unchangedCount = unchangedCount summary,
                h_archivedCount = archivedCount summary,
                h_errorCount = errorCount summary,
                h_fileName = (case fileName of Some f \<Rightarrow> if f = [] then None else Some f
                              | None \<Rightarrow> None),
                h_notes = (if length (errors summary) > 0
                           then Some (joinWith [CHR 0x0A] (errors summary)) else None) \<rparr>]\<rparr>)) w1)"

section \<open>bfvImportService\<close>

definition generateMatchKey :: "string \<Rightarrow> string \<Rightarrow> string \<Rightarrow> string option \<Rightarrow> string" where
  "generateMatchKey teamHome teamAway date competition =
     (let normalizedHome = trim (toLowerCase teamHome);
          normalizedAway = trim (toLowerCase teamAway);
          key = normalizedHome @ ''|'' @ normalizedAway @ ''|'' @ date
      in case competition of
           Some c \<Rightarrow> if c \<noteq> [] then key @ ''|'' @ trim (toLowerCase c) else key
         | None \<Rightarrow> key)"

definition generateExternalId :: "ParsedBfvMatch \<Rightarrow> string" where
  "generateExternalId match =
     (if m_externalId match \<noteq> [] \<and> length (m_externalId match) > 0
      then m_externalId match
      else generateMatchKey (m_teamHome match) (m_teamAway match) (m_date match)
             (Some (m_competition match)))"

definition getDefaultFieldForTeam :: "Team \<Rightarrow> bool \<Rightarrow> Field option io" where
  "getDefaultFieldForTeam team isHomeGame w =
     (if \<not> isHomeGame then (Inr None, w) else getDefaultField team spiel w)"

text \<open>\<open>x || "keiner"\<close>: an absent or empty value prints as \<open>keiner\<close>.\<close>

definition orKeiner :: "string option \<Rightarrow> string" where
  "orKeiner x = (case x of Some s \<Rightarrow> if s = [] then ''keiner'' else s | None \<Rightarrow> ''keiner'')"

definition truthy :: "string option \<Rightarrow> bool" where
  "truthy x = (case x of Some s \<Rightarrow> s \<noteq> [] | None \<Rightarrow> False)"

definition orNull :: "string option \<Rightarrow> string option" where
  "orNull x = (if truthy x then x else None)"

definition matchNeedsUpdate ::
  "CalendarEvent \<Rightarrow> ParsedBfvMatch \<Rightarrow> Field option \<Rightarrow> bool \<times> string list" where
  "matchNeedsUpdate existing match newField =
     (let changes =
        (if ev_date existing \<noteq> m_date match
         then [''Datum: '' @ ev_date existing @ '' -> '' @ m_date match] else []) @
        (if ev_startTime existing \<noteq> m_startTime match
         then [''Startzeit: '' @ ev_startTime existing @ '' -> '' @ m_startTime match] else []) @
        (if ev_endTime existing \<noteq> m_endTime match
         then [''Endzeit: '' @ ev_endTime existing @ '' -> '' @ m_endTime match] else []) @
        (case newField of
           Some f \<Rightarrow>
             if ev_field existing \<noteq> Some f
             then [''Platz: '' @ orKeiner (map_option fieldStr (ev_field existing)) @ '' -> ''
                     @ fieldStr f]
             else []
         | None \<Rightarrow> []) @
        (case m_location match of
           Some l \<Rightarrow>
             if l \<noteq> [] \<and> ev_location existing \<noteq> Some l
             then [''Ort: '' @ orKeiner (ev_location existing) @ '' -> '' @ l]
             else []
         | None \<Rightarrow> []) @
        (if m_competition match \<noteq> [] \<and> ev_competition existing \<noteq> Some (m_competition match)
         then [''Wettbewerb: '' @ orKeiner (ev_competition existing) @ '' -> ''
                 @ m_competition match]
         else [])
      in (length changes > 0, changes))"

text \<open>
  The value of a key in the object given to \<open>.set(...)\<close> or \<open>.values(...)\<close>. The query builder
  skips a key whose value is \<open>undefined\<close>: an update leaves that column as it is, an insert
  gives it its default (NULL). \<open>null\<close> writes NULL.
\<close>

datatype 'a assign = Undefined | Null | Value 'a

fun applyAssign :: "'a assign \<Rightarrow> 'a option \<Rightarrow> 'a option" where
  "applyAssign Undefined old = old"
| "applyAssign Null old = None"
| "applyAssign (Value v) old = Some v"

text \<open>\<open>match.isHomeGame ? defaultField : null\<close>\<close>

definition fieldAssign :: "bool \<Rightarrow> Field option \<Rightarrow> Field assign" where
  "fieldAssign isHomeGame defaultField =
     (if isHomeGame then (case defaultField of Some f \<Rightarrow> Value f | None \<Rightarrow> Undefined)
      else Null)"

definition ret :: "'a \<Rightarrow> 'a io" where
  "ret x w = (Inr x, w)"

text \<open>The object literal built from the row of the fallback query.\<close>

definition fallbackToCalendarEvent :: "CalendarEventDb \<Rightarrow> CalendarEvent" where
  "fallbackToCalendarEvent fallbackEvent =
     \<lparr> ev_id = db_id fallbackEvent,
       ev_title = db_title fallbackEvent,
       ev_type = db_type fallbackEvent,
       ev_team = db_team fallbackEvent,
       ev_field = db_field fallbackEvent,
       ev_date = db_date fallbackEvent,
       ev_startTime = db_startTime fallbackEvent,
       ev_endTime = db_endTime fallbackEvent,
       ev_isHomeGame = db_isHomeGame fallbackEvent,
       ev_opponent = db_opponent fallbackEvent,
       ev_location = db_location fallbackEvent,
       ev_competition = db_competition fallbackEvent,
       ev_description = db_description fallbackEvent,
       ev_bfvImported = True,
       ev_bfvMatchId = db_externalId fallbackEvent,
       ev_recurringGroupId = None \<rparr>"

definition selectFallbackEvent :: "ParsedBfvMatch \<Rightarrow> CalendarEvent option io" where
  "selectFallbackEvent match =
     andThen (selectFirst (\<lambda>r. db_source r = BFV
                \<and> db_teamHome r = Some (m_teamHome match)
                \<and> db_teamAway r = Some (m_teamAway match)
                \<and> db_status r = ACTIVE))
       (\<lambda>fallbackEvent. ret (map_option fallbackToCalendarEvent fallbackEvent))"

definition matchTitle :: "ParsedBfvMatch \<Rightarrow> string" where
  "matchTitle match =
     (if m_isHomeGame match
      then m_teamHome match @ '' vs '' @ m_teamAway match
      else m_teamHome match @ '' vs '' @ m_teamAway match)"

definition updateFromMatch ::
  "ParsedBfvMatch \<Rightarrow> string \<Rightarrow> Field option \<Rightarrow> CalendarEventDb \<Rightarrow> CalendarEventDb" where
  "updateFromMatch match externalId defaultField r =
     r\<lparr> db_externalId := Some externalId,
        db_title := matchTitle match,
        db_date := m_date match,
        db_startTime := m_startTime match,
        db_endTime := m_endTime match,
        db_field := applyAssign (fieldAssign (m_isHomeGame match) defaultField) (db_field r),
        db_location := orNull (m_location match),
        db_competition := orNull (Some (m_competition match)),
        db_teamHome := Some (m_teamHome match),
        db_teamAway := Some (m_teamAway match),
        db_rawPayload := orNull (m_rawData match) \<rparr>"

definition newEventFromMatch ::
  "uuid \<Rightarrow> ParsedBfvMatch \<Rightarrow> string \<Rightarrow> Field option \<Rightarrow> CalendarEventDb" where
  "newEventFromMatch i match externalId defaultField =
     \<lparr> db_id = i,
       db_source = BFV,
       db_externalId = Some externalId,
       db_recurringGroupId = None,
       db_type = spiel,
       db_title = matchTitle match,
       db_team = Some (m_team match),
       db_teamHome = Some (m_teamHome match),
       db_teamAway = Some (m_teamAway match),
       db_field = applyAssign (fieldAssign (m_isHomeGame match) defaultField) None,
       db_date = m_date match,
       db_startTime = m_startTime match,
       db_endTime = m_endTime match,
       db_isHomeGame = Some (m_isHomeGame match),
       db_opponent = Some (m_opponent match),
       db_location = orNull (m_location match),
       db_competition = orNull (Some (m_competition match)),
       db_description = None,
       db_rawPayload = orNull (m_rawData match),
       db_status = ACTIVE \<rparr>"

text \<open>
  The body of the \<open>try\<close> block for one record. The outcome names the counter the record
  goes to and the row it was resolved to; an \<open>Inl\<close> is the exception the \<open>catch\<close> receives.
\<close>

datatype Outcome = Created uuid | Updated uuid | Unchanged uuid

definition processMatch :: "ParsedBfvMatch \<Rightarrow> string \<Rightarrow> Outcome io" where
  "processMatch match externalId =
     andThen (getCalendarEventByBfvId externalId) (\<lambda>byId.
     andThen (case byId of
                Some e \<Rightarrow> ret (Some e)
              | None \<Rightarrow> selectFallbackEvent match) (\<lambda>existingEvent.
     andThen (getDefaultFieldForTeam (m_team match) (m_isHomeGame match)) (\<lambda>defaultField.
       case existingEvent of
         Some existing \<Rightarrow>
           (case matchNeedsUpdate existing match defaultField of (needsUpdate, changes) \<Rightarrow>
              if needsUpdate
              then andThen (updateCalendarEventWhereId (ev_id existing)
                              (updateFromMatch match externalId defaultField))
                     (\<lambda>_. ret (Updated (ev_id existing)))
              else ret (Unchanged (ev_id existing)))
       | None \<Rightarrow>
           (\<lambda>w. case randomUUID w of (i, w1) \<Rightarrow>
              andThen (insertCalendarEvent (newEventFromMatch i match externalId defaultField))
                (\<lambda>_. ret (Created i)) w1))))"

definition emptySummary :: BfvImportSummary where
  "emptySummary =
     \<lparr> createdCount = 0, updatedCount = 0, unchangedCount = 0, archivedCount = 0,
       errorCount = 0, errors = [] \<rparr>"

definition recordOutcome :: "ParsedBfvMatch \<Rightarrow> string + Outcome \<Rightarrow> BfvImportSummary \<Rightarrow> BfvImportSummary"
  where
  "recordOutcome match res summary =
     (case res of
        Inr (Created _) \<Rightarrow> summary\<lparr>createdCount := createdCount summary + 1\<rparr>
      | Inr (Updated _) \<Rightarrow> summary\<lparr>updatedCount := updatedCount summary + 1\<rparr>
      | Inr (Unchanged _) \<Rightarrow> summary\<lparr>unchangedCount := unchangedCount summary + 1\<rparr>
      | Inl errorMsg \<Rightarrow>
          summary\<lparr>errorCount := errorCount summary + 1,
                  errors := errors summary @
                    [''Fehler bei '' @ m_teamHome match @ '' vs '' @ m_teamAway match @ '': ''
                       @ errorMsg]\<rparr>)"

text \<open>The \<open>for\<close> loop over the batch: the summary, the set of seen ids and the database.\<close>

fun importLoop ::
  "ParsedBfvMatch list \<Rightarrow> BfvImportSummary \<Rightarrow> string set \<Rightarrow> world
     \<Rightarrow> BfvImportSummary \<times> string set \<times> world" where
  "importLoop [] summary processedExternalIds w = (summary, processedExternalIds, w)"
| "importLoop (match # matches) summary processedExternalIds w =
     (let externalId = generateExternalId match
      in case processMatch match externalId w of (res, w') \<Rightarrow>
           importLoop matches (recordOutcome match res summary)
             (insert externalId processedExternalIds) w')"

text \<open>
  The archival pass. The counter is bumped as the loop goes, so an exception in the middle
  keeps the increments made before it.
\<close>

fun archiveLoop ::
  "string list \<Rightarrow> string set \<Rightarrow> BfvImportSummary \<Rightarrow> world
     \<Rightarrow> (string + unit) \<times> BfvImportSummary \<times> world" where
  "archiveLoop [] processedExternalIds summary w = (Inr (), summary, w)"
| "archiveLoop (existingId # ids) processedExternalIds summary w =
     (if existingId \<notin> processedExternalIds
      then (case selectFirst (\<lambda>r. db_externalId r = Some existingId \<and> db_source r = BFV
                                \<and> db_status r = ACTIVE) w of
              (Inl e, w') \<Rightarrow> (Inl e, summary, w')
            | (Inr None, w') \<Rightarrow> archiveLoop ids processedExternalIds summary w'
            | (Inr (Some event), w') \<Rightarrow>
                (case updateCalendarEventWhereId (db_id event)
                        (\<lambda>r. r\<lparr>db_status := ARCHIVED\<rparr>) w' of
                   (Inl e, w'') \<Rightarrow> (Inl e, summary, w'')
                 | (Inr _, w'') \<Rightarrow>
                     archiveLoop ids processedExternalIds
                       (summary\<lparr>archivedCount := archivedCount summary + 1\<rparr>) w''))
      else archiveLoop ids processedExternalIds summary w)"

text \<open>The \<open>try\<close>/\<open>catch\<close> around the pass: the exception is logged and dropped.\<close>

definition archivePass :: "string set \<Rightarrow> BfvImportSummary \<Rightarrow> world \<Rightarrow> BfvImportSummary \<times> world"
  where
  "archivePass processedExternalIds summary w =
     (case getBfvEventIds w of
        (Inl e, w') \<Rightarrow> (summary, w')
      | (Inr existingBfvIds, w') \<Rightarrow>
          (case archiveLoop existingBfvIds processedExternalIds summary w' of
             (_, summary', w'') \<Rightarrow> (summary', w'')))"

definition importBfvMatches ::
  "ParsedBfvMatch list \<Rightarrow> string option \<Rightarrow> bool \<Rightarrow> BfvImportSummary io" where
  "importBfvMatches matches fileName archiveMissing w =
     (case importLoop matches emptySummary {} w of (summary, processedExternalIds, w1) \<Rightarrow>
        (case (if archiveMissing \<and> processedExternalIds \<noteq> {}
               then archivePass processedExternalIds summary w1
               else (summary, w1)) of (summary', w2) \<Rightarrow>
           andThen (createImportHistory summary' fileName) (\<lambda>_. ret summary') w2))"

section \<open>The key generator on UTF-16 code units\<close>

text \<open>
  A JavaScript string is a sequence of UTF-16 code units, and a club name may hold any of
  them. This section embeds \<open>generateMatchKey\<close> a second time, on code units as natural
  numbers, to say what the key does outside the Latin-1 range of the strings above.
  \<open>trim\<close> removes the white space and the line terminators of ECMAScript.
  \<open>toLowerCase\<close> is given on the code units below 256, on the white space above them
  (which has no case), on U+0130 (capital I with dot above, which becomes the two units
  U+0069 U+0307) and on U+0131 (dotless small i, which stays as it is); on any other code
  unit the embedding gives no result.
\<close>

definition codeUnits :: "string \<Rightarrow> nat list" where
  "codeUnits s = map of_char s"

definition isWhiteSpaceUtf16 :: "nat \<Rightarrow> bool" where
  "isWhiteSpaceUtf16 u \<longleftrightarrow>
     u \<in> {9, 10, 11, 12, 13, 32, 160, 5760, 8232, 8233, 8239, 8287, 12288, 65279}
     \<or> (8192 \<le> u \<and> u \<le> 8202)"

definition trimUtf16 :: "nat list \<Rightarrow> nat list" where
  "trimUtf16 s = rev (dropWhile isWhiteSpaceUtf16 (rev (dropWhile isWhiteSpaceUtf16 s)))"

definition isUpperCaseUnit :: "nat \<Rightarrow> bool" where
  "isUpperCaseUnit u \<longleftrightarrow> (65 \<le> u \<and> u \<le> 90) \<or> (192 \<le> u \<and> u \<le> 222 \<and> u \<noteq> 215)"

definition toLowerCaseUnit :: "nat \<Rightarrow> nat list option" where
  "toLowerCaseUnit u =
     (if isUpperCaseUnit u then Some [u + 32]
      else if u < 256 \<or> isWhiteSpaceUtf16 u then Some [u]
      else if u = 304 then Some [105, 775]
      else if u = 305 then Some [305]
      else None)"

fun toLowerCaseUtf16 :: "nat list \<Rightarrow> nat list option" where
  "toLowerCaseUtf16 [] = Some []"
| "toLowerCaseUtf16 (u # us) =
     (case (toLowerCaseUnit u, toLowerCaseUtf16 us) of
        (Some l, Some ls) \<Rightarrow> Some (l @ ls)
      | _ \<Rightarrow> None)"

definition generateMatchKeyUtf16 ::
  "nat list \<Rightarrow> nat list \<Rightarrow> nat list \<Rightarrow> nat list option \<Rightarrow> nat list option" where
  "generateMatchKeyUtf16 teamHome teamAway date competition =
     (case (toLowerCaseUtf16 teamHome, toLowerCaseUtf16 teamAway) of
        (Some lowerHome, Some lowerAway) \<Rightarrow>
          (let normalizedHome = trimUtf16 lowerHome;
               normalizedAway = trimUtf16 lowerAway;
               key = normalizedHome @ [124] @ normalizedAway @ [124] @ date
           in case competition of
                Some c \<Rightarrow>
                  if c \<noteq> []
                  then map_option (\<lambda>lowerC. key @ [124] @ trimUtf16 lowerC) (toLowerCaseUtf16 c)
                  else Some key
              | None \<Rightarrow> Some key)
      | _ \<Rightarrow> None)"

section \<open>Notions the properties are stated with\<close>



text \<open>The small letter of a code unit below 256.\<close>

definition lowerUnit :: "nat \<Rightarrow> nat" where
  "lowerUnit u = (if isUpperCaseUnit u then u + 32 else u)"


text \<open>The default venue the mapping table gives a team for a match, and the audit row of a run.\<close>

definition mappedField :: "FieldMappingDb list \<Rightarrow> Team \<Rightarrow> Field option" where
  "mappedField fms team =
     map_option fm_defaultField (find (\<lambda>fm. fm_team fm = team \<and> fm_eventType fm = spiel) fms)"

definition historyRow :: "uuid \<Rightarrow> BfvImportSummary \<Rightarrow> string option \<Rightarrow> BfvImportHistoryDb" where
  "historyRow i summary fileName =
     \<lparr> h_id = i,
       h_createdCount = createdCount summary,
       h_updatedCount = updatedCount summary,
       h_unchangedCount = unchangedCount summary,
       h_archivedCount = archivedCount summary,
       h_errorCount = errorCount summary,
       h_fileName = orNull fileName,
       h_notes = (if errors summary = [] then None
                  else Some (joinWith [CHR 0x0A] (errors summary))) \<rparr>"

section \<open>Example data\<close>

definition exampleMatch :: ParsedBfvMatch where
  "exampleMatch =
     \<lparr> m_externalId = [], m_date = ''2026-03-01'', m_startTime = ''15:00'',
       m_endTime = ''17:00'', m_teamHome = ''SV A'', m_teamAway = ''Club'', m_team = herren,
       m_isHomeGame = True, m_opponent = ''SV A'', m_competition = ''Kreisliga'',
       m_location = None, m_rawData = None \<rparr>"


definition exampleRow :: "uuid \<Rightarrow> Field option \<Rightarrow> CalendarEventDb" where
  "exampleRow i f =
      \<lparr>db_id = i, db_source = BFV,
         db_externalId = Some ''sv a|club|2026-03-01|kreisliga'',
         db_recurringGroupId = None, db_type = spiel,
         db_title = ''SV A vs Club'', db_team = Some herren,
         db_teamHome = Some ''SV A'', db_teamAway = Some ''Club'',
         db_field = f,
         db_date = ''2026-03-01'',
         db_startTime = ''15:00'', db_endTime = ''17:00'',
         db_isHomeGame = Some True, db_opponent = Some ''SV A'',
         db_location = None, db_competition = Some ''Kreisliga'',
         db_description = None, db_rawPayload = None, db_status = ACTIVE\<rparr>"


text \<open>Two states hold the same tables when only the id supply and the fault schedule differ.\<close>

definition sameTables :: "world \<Rightarrow> world \<Rightarrow> bool" where
  "sameTables w w' \<longleftrightarrow>
     calendarEvents w' = calendarEvents w \<and> fieldMappings w' = fieldMappings w
     \<and> importHistory w' = importHistory w"

text \<open>
  What one record does to the calendar when no call fails: the event it is resolved to
  (first by external id, then by the two team names), and the outcome with the new table.
\<close>

definition resolveExisting ::
  "CalendarEventDb list \<Rightarrow> ParsedBfvMatch \<Rightarrow> string \<Rightarrow> CalendarEvent option" where
  "resolveExisting rows match externalId =
     (case find (\<lambda>r. db_source r = BFV \<and> db_externalId r = Some externalId) rows of
        Some r \<Rightarrow> Some (dbEventToCalendarEvent r)
      | None \<Rightarrow>
          map_option fallbackToCalendarEvent
            (find (\<lambda>r. db_source r = BFV \<and> db_teamHome r = Some (m_teamHome match)
                      \<and> db_teamAway r = Some (m_teamAway match) \<and> db_status r = ACTIVE) rows))"

definition defaultFieldOf :: "FieldMappingDb list \<Rightarrow> ParsedBfvMatch \<Rightarrow> Field option" where
  "defaultFieldOf fms match =
     (if m_isHomeGame match then mappedField fms (m_team match) else None)"

definition stepRows ::
  "CalendarEventDb list \<Rightarrow> FieldMappingDb list \<Rightarrow> uuid \<Rightarrow> ParsedBfvMatch \<Rightarrow> string
     \<Rightarrow> Outcome \<times> CalendarEventDb list" where
  "stepRows rows fms u match externalId =
     (case resolveExisting rows match externalId of
        Some existing \<Rightarrow>
          if fst (matchNeedsUpdate existing match (defaultFieldOf fms match))
          then (Updated (ev_id existing),
                map (\<lambda>r. if db_id r = ev_id existing
                          then updateFromMatch match externalId (defaultFieldOf fms match) r
                          else r) rows)
          else (Unchanged (ev_id existing), rows)
      | None \<Rightarrow>
          (Created u, rows @ [newEventFromMatch u match externalId (defaultFieldOf fms match)]))"

text \<open>The number of records a summary accounts for, and its counters for records.\<close>

definition recordsCounted :: "BfvImportSummary \<Rightarrow> nat" where
  "recordsCounted summary =
     createdCount summary + updatedCount summary + unchangedCount summary + errorCount summary"

definition recordCounters :: "BfvImportSummary \<Rightarrow> nat \<times> nat \<times> nat \<times> nat \<times> string list" where
  "recordCounters summary =
     (createdCount summary, updatedCount summary, unchangedCount summary, errorCount summary,
      errors summary)"

definition exampleWorld :: "CalendarEventDb list \<Rightarrow> string option list \<Rightarrow> world" where
  "exampleWorld rows fs =
     \<lparr>calendarEvents = rows,
      fieldMappings = [\<lparr>fm_id = 0, fm_team = herren, fm_eventType = spiel,
                        fm_defaultField = a_platz\<rparr>],
      importHistory = [], uuids = 1, faults = fs\<rparr>"

definition storedRow :: CalendarEventDb where
  "storedRow = exampleRow 7 (Some b_platz)"

definition awayMatch :: ParsedBfvMatch where
  "awayMatch = exampleMatch\<lparr>m_isHomeGame := False, m_startTime := ''16:00''\<rparr>"

definition damenMatch :: ParsedBfvMatch where
  "damenMatch = exampleMatch\<lparr>m_team := damen, m_startTime := ''16:00''\<rparr>"

definition storedRowA :: CalendarEventDb where
  "storedRowA = exampleRow 7 (Some a_platz)"

definition laterRow :: CalendarEventDb where
  "laterRow = (exampleRow 8 (Some a_platz))\<lparr>db_externalId := Some ''bfv-2'',
     db_date := ''2026-05-10''\<rparr>"

definition renumberedMatch :: ParsedBfvMatch where
  "renumberedMatch = exampleMatch\<lparr>m_externalId := ''bfv-4711''\<rparr>"

text \<open>
  The events the archival pass is after: active, from BFV, with an external id that
  the run has not seen.
\<close>

definition archivable :: "string set \<Rightarrow> CalendarEventDb \<Rightarrow> bool" where
  "archivable seen r \<longleftrightarrow>
     db_source r = BFV \<and> db_status r = ACTIVE
     \<and> (case db_externalId r of Some x \<Rightarrow> x \<notin> seen | None \<Rightarrow> False)"

definition activeBfvIds :: "CalendarEventDb list \<Rightarrow> string list" where
  "activeBfvIds rows =
     List.map_filter db_externalId
       (filter (\<lambda>r. db_source r = BFV \<and> db_status r = ACTIVE) rows)"

text \<open>
  A record is settled in a calendar when a BFV event carries its external id and the
  change detector finds nothing to update on it. \<open>eraseStatus\<close> forgets the status of an
  event, the one column the archival pass writes.
\<close>

definition settled :: "CalendarEventDb list \<Rightarrow> FieldMappingDb list \<Rightarrow> ParsedBfvMatch \<Rightarrow> bool" where
  "settled rows fms m \<longleftrightarrow>
     (\<exists>r\<in>set rows. db_source r = BFV \<and> db_externalId r = Some (generateExternalId m)
        \<and> \<not> fst (matchNeedsUpdate (dbEventToCalendarEvent r) m (defaultFieldOf fms m)))"

definition eraseStatus :: "CalendarEventDb \<Rightarrow> CalendarEventDb" where
  "eraseStatus r = r\<lparr>db_status := ACTIVE\<rparr>"

text \<open>
  No active BFV event carries the two team names of a record of the batch under
  another external id than the record's: the fallback lookup then has nothing to find
  that the lookup by id has not found.
\<close>

definition sameFixtureSameId :: "CalendarEventDb list \<Rightarrow> ParsedBfvMatch list \<Rightarrow> bool" where
  "sameFixtureSameId rows ms \<longleftrightarrow>
     (\<forall>r\<in>set rows. \<forall>m\<in>set ms.
        db_source r = BFV \<and> db_status r = ACTIVE
        \<and> db_teamHome r = Some (m_teamHome m) \<and> db_teamAway r = Some (m_teamAway m)
        \<longrightarrow> db_externalId r = Some (generateExternalId m))"

definition twoFixtures :: "ParsedBfvMatch list" where
  "twoFixtures =
     [exampleMatch,
      exampleMatch\<lparr>m_externalId := ''bfv-9'', m_teamHome := ''SV B'', m_isHomeGame := False,
                     m_location := Some ''Sportplatz B''\<rparr>]"

definition otherRow :: CalendarEventDb where
  "otherRow = laterRow\<lparr>db_teamHome := Some ''SV C''\<rparr>"

section \<open>The key generator\<close>

lemma toLowerCaseUtf16_lowerUnit:
  "list_all (\<lambda>u. u < 256 \<or> isWhiteSpaceUtf16 u) s
     \<Longrightarrow> toLowerCaseUtf16 s = Some (map lowerUnit s)"
  by (induction s) (auto simp: toLowerCaseUnit_def lowerUnit_def)











lemma of_char_less_256: "(of_char c :: nat) < 256"
proof -
  have "(of_char c :: nat) mod 256 = of_char c" by simp
  moreover have "(of_char c :: nat) mod 256 < 256" by (rule mod_less_divisor) simp
  ultimately show ?thesis by simp
qed

lemma isWhiteSpaceUtf16_latin1:
  "u < 256 \<Longrightarrow> isWhiteSpaceUtf16 u \<longleftrightarrow> u \<in> {9, 10, 11, 12, 13, 32, 160}"
  by (auto simp: isWhiteSpaceUtf16_def)

lemma isWhiteSpaceUtf16_of_char: "isWhiteSpaceUtf16 (of_char c) = isWhiteSpace c"
  by (simp only: isWhiteSpaceUtf16_latin1 [OF of_char_less_256] isWhiteSpace_def)

lemma isUpperCaseUnit_of_char: "isUpperCaseUnit (of_char c) = isUpperCase c"
  by (simp add: isUpperCaseUnit_def isUpperCase_def Let_def)

lemma lowerUnit_of_char: "lowerUnit (of_char c) = of_char (toLowerChar c)"
proof (cases "isUpperCase c")
  case True
  then have "(of_char c :: nat) + 32 < 256"
    unfolding isUpperCase_def Let_def by arith
  then have "((of_char c :: nat) + 32) mod 256 = of_char c + 32" by simp
  then have "(of_char (char_of ((of_char c :: nat) + 32)) :: nat) = of_char c + 32"
    by (simp only: of_char_of)
  with True show ?thesis
    by (simp add: lowerUnit_def toLowerChar_def isUpperCaseUnit_of_char)
next
  case False
  then show ?thesis by (simp add: lowerUnit_def toLowerChar_def isUpperCaseUnit_of_char)
qed

lemma toLowerCaseUtf16_codeUnits: "toLowerCaseUtf16 (codeUnits s) = Some (codeUnits (toLowerCase s))"
proof -
  have "list_all (\<lambda>u. u < 256 \<or> isWhiteSpaceUtf16 u) (codeUnits s)"
    by (simp add: codeUnits_def list_all_iff of_char_less_256)
  from toLowerCaseUtf16_lowerUnit [OF this] show ?thesis
    by (simp add: codeUnits_def toLowerCase_def lowerUnit_of_char)
qed

lemma dropWhile_codeUnits:
  "dropWhile isWhiteSpaceUtf16 (codeUnits s) = codeUnits (dropWhile isWhiteSpace s)"
  by (induction s) (simp_all add: codeUnits_def isWhiteSpaceUtf16_of_char)

lemma rev_codeUnits: "rev (codeUnits s) = codeUnits (rev s)"
  by (simp add: codeUnits_def rev_map)

lemma trimUtf16_codeUnits: "trimUtf16 (codeUnits s) = codeUnits (trim s)"
  by (simp only: trimUtf16_def trim_def dropWhile_codeUnits rev_codeUnits)

lemma codeUnits_append: "codeUnits (s @ t) = codeUnits s @ codeUnits t"
  by (simp add: codeUnits_def)

lemma codeUnits_bar: "codeUnits (CHR ''|'' # s) = 124 # codeUnits s"
  by (simp add: codeUnits_def)

text \<open>
  On strings of the Latin-1 range the two embeddings of the key generator agree: the key
  on code units is defined there, and it is the key of the strings read as code units.
\<close>

lemma generateMatchKeyUtf16_codeUnits:
  "generateMatchKeyUtf16 (codeUnits teamHome) (codeUnits teamAway) (codeUnits date)
       (map_option codeUnits competition)
     = Some (codeUnits (generateMatchKey teamHome teamAway date competition))"
proof -
  have e: "codeUnits c = [] \<longleftrightarrow> c = []" for c by (simp add: codeUnits_def)
  show ?thesis
    by (cases competition)
       (simp_all add: generateMatchKeyUtf16_def generateMatchKey_def Let_def
          toLowerCaseUtf16_codeUnits trimUtf16_codeUnits codeUnits_append codeUnits_bar e)
qed





section \<open>The change detector\<close>









section \<open>Running without faults\<close>

lemma dbCall_no_fault: "faults w = [] \<Longrightarrow> dbCall w = (Inr (), w)"
  by (simp add: dbCall_def)

lemma selectFirst_no_fault:
  "faults w = [] \<Longrightarrow> selectFirst P w = (Inr (find P (calendarEvents w)), w)"
  by (simp add: selectFirst_def andThen_def dbCall_no_fault)

lemma getCalendarEventByBfvId_no_fault:
  "faults w = [] \<Longrightarrow> getCalendarEventByBfvId x w =
     (Inr (map_option dbEventToCalendarEvent
        (find (\<lambda>r. db_source r = BFV \<and> db_externalId r = Some x) (calendarEvents w))), w)"
  by (simp add: getCalendarEventByBfvId_def andThen_def selectFirst_no_fault)

lemma selectFallbackEvent_no_fault:
  "faults w = [] \<Longrightarrow> selectFallbackEvent m w =
     (Inr (map_option fallbackToCalendarEvent
        (find (\<lambda>r. db_source r = BFV \<and> db_teamHome r = Some (m_teamHome m)
                  \<and> db_teamAway r = Some (m_teamAway m) \<and> db_status r = ACTIVE)
           (calendarEvents w))), w)"
  by (simp add: selectFallbackEvent_def andThen_def selectFirst_no_fault ret_def)

lemma getDefaultFieldForTeam_no_fault:
  "faults w = [] \<Longrightarrow> getDefaultFieldForTeam team isHome w =
     (Inr (if isHome then mappedField (fieldMappings w) team else None), w)"
  by (simp add: getDefaultFieldForTeam_def getDefaultField_def andThen_def dbCall_no_fault
        mappedField_def)

lemma insertCalendarEvent_no_fault:
  "faults w = [] \<Longrightarrow> insertCalendarEvent row w =
     commitCalendarEvents (calendarEvents w @ [row]) w"
  by (simp add: insertCalendarEvent_def andThen_def dbCall_no_fault)

lemma updateCalendarEventWhereId_no_fault:
  "faults w = [] \<Longrightarrow> updateCalendarEventWhereId i f w =
     commitCalendarEvents (map (\<lambda>r. if db_id r = i then f r else r) (calendarEvents w)) w"
  by (simp add: updateCalendarEventWhereId_def andThen_def dbCall_no_fault)

lemma getBfvEventIds_no_fault:
  "faults w = [] \<Longrightarrow> getBfvEventIds w =
     (Inr (List.map_filter db_externalId
            (filter (\<lambda>r. db_source r = BFV \<and> db_status r = ACTIVE) (calendarEvents w))), w)"
  by (simp add: getBfvEventIds_def andThen_def dbCall_no_fault)

lemma createImportHistory_no_fault:
  "faults w = [] \<Longrightarrow> createImportHistory summary fileName w =
     (Inr (), w\<lparr>uuids := Suc (uuids w),
                importHistory := importHistory w @ [historyRow (uuids w) summary fileName]\<rparr>)"
  by (auto simp: createImportHistory_def randomUUID_def andThen_def dbCall_def historyRow_def
        orNull_def truthy_def split: option.splits)

section \<open>The end-to-end example\<close>

lemma exampleMatch_externalId:
  "generateExternalId exampleMatch = ''sv a|club|2026-03-01|kreisliga''"
  by code_simp

lemma example_new_row:
  "newEventFromMatch i exampleMatch ''sv a|club|2026-03-01|kreisliga'' f = exampleRow i f"
  by (cases f) (simp_all add: newEventFromMatch_def exampleMatch_def exampleRow_def
        matchTitle_def fieldAssign_def orNull_def truthy_def)

lemma example_processMatch:
  assumes "w = \<lparr>calendarEvents = [], fieldMappings = fm, importHistory = hist, uuids = u,
           faults = []\<rparr>"
  shows "processMatch exampleMatch ''sv a|club|2026-03-01|kreisliga'' w =
     (Inr (Created u),
      w\<lparr>uuids := Suc u, calendarEvents := [exampleRow u (mappedField fm herren)]\<rparr>)"
proof -
  have f: "faults w = []" and e: "calendarEvents w = []" and u: "uuids w = u"
    and m: "fieldMappings w = fm"
    using assms by simp_all
  have h: "m_isHomeGame exampleMatch" "m_team exampleMatch = herren"
    by (simp_all add: exampleMatch_def)
  show ?thesis
    by (simp add: processMatch_def andThen_def getCalendarEventByBfvId_no_fault [OF f]
        selectFallbackEvent_no_fault [OF f] e getDefaultFieldForTeam_no_fault [OF f] h m u
        randomUUID_def insertCalendarEvent_no_fault commitCalendarEvents_def ret_def f
        example_new_row externalKeys_def List.map_filter_simps)
       (simp add: exampleRow_def)
qed


text \<open>
  Claim C7. Importing the single record of the example into an empty calendar, with no
  failing database call, reports one created event; the calendar then holds one event
  titled "SV A vs Club" whose external id is the generated key
  "sv a|club|2026-03-01|kreisliga" and whose field is the default venue of the mapping for
  (herren, spiel), or unset when there is no such mapping.
\<close>

theorem example_end_to_end:
  "importBfvMatches [exampleMatch] fileName archiveMissing
      \<lparr>calendarEvents = [], fieldMappings = fm, importHistory = hist, uuids = u,
       faults = []\<rparr>
     = (Inr \<lparr>createdCount = 1, updatedCount = 0, unchangedCount = 0, archivedCount = 0,
              errorCount = 0, errors = []\<rparr>,
        \<lparr>calendarEvents =
           [\<lparr>db_id = u, db_source = BFV,
             db_externalId = Some ''sv a|club|2026-03-01|kreisliga'',
             db_recurringGroupId = None, db_type = spiel,
             db_title = ''SV A vs Club'', db_team = Some herren,
             db_teamHome = Some ''SV A'', db_teamAway = Some ''Club'',
             db_field = map_option fm_defaultField
                          (find (\<lambda>m. fm_team m = herren \<and> fm_eventType m = spiel) fm),
             db_date = ''2026-03-01'',
             db_startTime = ''15:00'', db_endTime = ''17:00'',
             db_isHomeGame = Some True, db_opponent = Some ''SV A'',
             db_location = None, db_competition = Some ''Kreisliga'',
             db_description = None, db_rawPayload = None, db_status = ACTIVE\<rparr>],
         fieldMappings = fm,
         importHistory = hist @
           [\<lparr>h_id = Suc u, h_createdCount = 1, h_updatedCount = 0, h_unchangedCount = 0,
             h_archivedCount = 0, h_errorCount = 0, h_fileName = orNull fileName,
             h_notes = None\<rparr>],
         uuids = Suc (Suc u), faults = []\<rparr>)"
proof -
  define w where "w = \<lparr>calendarEvents = [], fieldMappings = fm, importHistory = hist,
    uuids = u, faults = []\<rparr>"
  define w1 where "w1 = w\<lparr>uuids := Suc u,
    calendarEvents := [exampleRow u (mappedField fm herren)]\<rparr>"
  define s1 where "s1 = \<lparr>createdCount = 1, updatedCount = 0, unchangedCount = 0,
    archivedCount = 0, errorCount = 0, errors = []\<rparr>"
  have loop: "importLoop [exampleMatch] emptySummary {} w
      = (s1, {''sv a|club|2026-03-01|kreisliga''}, w1)"
    by (simp add: exampleMatch_externalId example_processMatch [OF w_def] w1_def s1_def
          recordOutcome_def emptySummary_def)
  have f1: "faults w1 = []" by (simp add: w1_def w_def)
  have ids: "getBfvEventIds w1 = (Inr [''sv a|club|2026-03-01|kreisliga''], w1)"
    by (simp add: getBfvEventIds_no_fault [OF f1])
       (simp add: w1_def exampleRow_def List.map_filter_simps)
  have arch: "archivePass {''sv a|club|2026-03-01|kreisliga''} s1 w1 = (s1, w1)"
    by (simp add: archivePass_def ids)
  have "importBfvMatches [exampleMatch] fileName archiveMissing w
      = (Inr s1, w1\<lparr>uuids := Suc (uuids w1),
           importHistory := importHistory w1 @ [historyRow (uuids w1) s1 fileName]\<rparr>)"
    unfolding importBfvMatches_def loop
    by (simp add: arch andThen_def createImportHistory_no_fault [OF f1] ret_def)
  then show ?thesis
    by (simp add: w_def w1_def s1_def exampleRow_def mappedField_def historyRow_def)
qed


theorem example_end_to_end_witness:
  "importBfvMatches [exampleMatch] (Some ''spielplan.pdf'') False
      \<lparr>calendarEvents = [],
       fieldMappings = [\<lparr>fm_id = 0, fm_team = herren, fm_eventType = spiel,
                         fm_defaultField = a_platz\<rparr>],
       importHistory = [], uuids = 1, faults = []\<rparr>
     = (Inr \<lparr>createdCount = 1, updatedCount = 0, unchangedCount = 0, archivedCount = 0,
              errorCount = 0, errors = []\<rparr>,
        \<lparr>calendarEvents = [exampleRow 1 (Some a_platz)],
         fieldMappings = [\<lparr>fm_id = 0, fm_team = herren, fm_eventType = spiel,
                           fm_defaultField = a_platz\<rparr>],
         importHistory =
           [\<lparr>h_id = 2, h_createdCount = 1, h_updatedCount = 0, h_unchangedCount = 0,
             h_archivedCount = 0, h_errorCount = 0, h_fileName = Some ''spielplan.pdf'',
             h_notes = None\<rparr>],
         uuids = 3, faults = []\<rparr>)"
  using example_end_to_end [of "Some ''spielplan.pdf''" False
      "[\<lparr>fm_id = 0, fm_team = herren, fm_eventType = spiel, fm_defaultField = a_platz\<rparr>]"
      "[]" 1]
  by (simp add: exampleRow_def orNull_def truthy_def)

section \<open>What the database calls return\<close>

lemma andThenE:
  assumes "andThen f g w = (r, w')"
  obtains (fail) e where "f w = (Inl e, w')" "r = Inl e"
        | (ok) x w1 where "f w = (Inr x, w1)" "g x w1 = (r, w')"
  using assms unfolding andThen_def by (auto split: prod.splits sum.splits)

lemma sameTables_refl: "sameTables w w"
  by (simp add: sameTables_def)

lemma sameTables_trans: "sameTables w w1 \<Longrightarrow> sameTables w1 w2 \<Longrightarrow> sameTables w w2"
  by (simp add: sameTables_def)

lemma dbCall_sameTables: "dbCall w = (r, w') \<Longrightarrow> sameTables w w' \<and> uuids w' = uuids w"
  by (auto simp: dbCall_def sameTables_def split: list.splits option.splits)

lemma selectFirst_result:
  assumes "selectFirst P w = (r, w')"
  shows "sameTables w w' \<and> uuids w' = uuids w
         \<and> (\<forall>x. r = Inr x \<longrightarrow> x = find P (calendarEvents w))"
  using assms unfolding selectFirst_def
  by (elim andThenE) (auto dest!: dbCall_sameTables simp: sameTables_def)

lemma getCalendarEventByBfvId_result:
  assumes "getCalendarEventByBfvId x w = (r, w')"
  shows "sameTables w w' \<and> uuids w' = uuids w
         \<and> (\<forall>y. r = Inr y \<longrightarrow> y = map_option dbEventToCalendarEvent
              (find (\<lambda>r. db_source r = BFV \<and> db_externalId r = Some x) (calendarEvents w)))"
  using assms unfolding getCalendarEventByBfvId_def
  by (elim andThenE) (auto dest!: selectFirst_result)

lemma selectFallbackEvent_result:
  assumes "selectFallbackEvent m w = (r, w')"
  shows "sameTables w w' \<and> uuids w' = uuids w
         \<and> (\<forall>y. r = Inr y \<longrightarrow> y = map_option fallbackToCalendarEvent
              (find (\<lambda>r. db_source r = BFV \<and> db_teamHome r = Some (m_teamHome m)
                  \<and> db_teamAway r = Some (m_teamAway m) \<and> db_status r = ACTIVE)
                 (calendarEvents w)))"
  using assms unfolding selectFallbackEvent_def
  by (elim andThenE) (auto dest!: selectFirst_result simp: ret_def)

lemma getDefaultFieldForTeam_result:
  assumes "getDefaultFieldForTeam team isHome w = (r, w')"
  shows "sameTables w w' \<and> uuids w' = uuids w
         \<and> (\<forall>y. r = Inr y \<longrightarrow> y = (if isHome then mappedField (fieldMappings w) team else None))"
proof (cases isHome)
  case False
  with assms show ?thesis by (auto simp: getDefaultFieldForTeam_def sameTables_def)
next
  case True
  with assms have "getDefaultField team spiel w = (r, w')"
    by (simp add: getDefaultFieldForTeam_def)
  then show ?thesis unfolding getDefaultField_def using True
    by (elim andThenE) (auto dest!: dbCall_sameTables simp: sameTables_def mappedField_def)
qed

lemma commitCalendarEvents_result:
  assumes "commitCalendarEvents rows w = (r, w')"
  shows "fieldMappings w' = fieldMappings w \<and> importHistory w' = importHistory w
         \<and> uuids w' = uuids w \<and> faults w' = faults w
         \<and> (case r of Inl e \<Rightarrow> calendarEvents w' = calendarEvents w
             | Inr _ \<Rightarrow> calendarEvents w' = rows \<and> constraintsOk rows)"
  using assms by (auto simp: commitCalendarEvents_def constraintsOk_def split: if_splits)

lemma insertCalendarEvent_result:
  assumes "insertCalendarEvent row w = (r, w')"
  shows "fieldMappings w' = fieldMappings w \<and> importHistory w' = importHistory w
         \<and> uuids w' = uuids w
         \<and> (case r of Inl e \<Rightarrow> calendarEvents w' = calendarEvents w
             | Inr _ \<Rightarrow> calendarEvents w' = calendarEvents w @ [row]
                        \<and> constraintsOk (calendarEvents w'))"
  using assms unfolding insertCalendarEvent_def
  by (elim andThenE)
     (auto dest!: dbCall_sameTables commitCalendarEvents_result simp: sameTables_def
           split: sum.splits)

lemma updateCalendarEventWhereId_result:
  assumes "updateCalendarEventWhereId i f w = (r, w')"
  shows "fieldMappings w' = fieldMappings w \<and> importHistory w' = importHistory w
         \<and> uuids w' = uuids w
         \<and> (case r of Inl e \<Rightarrow> calendarEvents w' = calendarEvents w
             | Inr _ \<Rightarrow> calendarEvents w'
                          = map (\<lambda>r. if db_id r = i then f r else r) (calendarEvents w)
                        \<and> constraintsOk (calendarEvents w'))"
  using assms unfolding updateCalendarEventWhereId_def
  by (elim andThenE)
     (auto dest!: dbCall_sameTables commitCalendarEvents_result simp: sameTables_def
           split: sum.splits)


section \<open>What one record does\<close>

lemma fallback_phase:
  assumes "(case byId of Some e \<Rightarrow> ret (Some e) | None \<Rightarrow> selectFallbackEvent m) w = (r, w')"
    and "byId = map_option dbEventToCalendarEvent
           (find (\<lambda>r. db_source r = BFV \<and> db_externalId r = Some x) (calendarEvents w))"
  shows "sameTables w w' \<and> uuids w' = uuids w
         \<and> (\<forall>y. r = Inr y \<longrightarrow> y = resolveExisting (calendarEvents w) m x)"
proof (cases byId)
  case None
  with assms(1) have "selectFallbackEvent m w = (r, w')" by simp
  from selectFallbackEvent_result [OF this] assms(2) None show ?thesis
    by (auto simp: resolveExisting_def split: option.splits)
next
  case (Some e)
  with assms(1) have "r = Inr (Some e)" "w' = w" by (simp_all add: ret_def)
  with assms(2) Some show ?thesis
    by (auto simp: resolveExisting_def sameTables_def split: option.splits)
qed

lemma processMatch_result:
  assumes "processMatch m x w = (res, w')"
  shows "fieldMappings w' = fieldMappings w \<and> importHistory w' = importHistory w
         \<and> (case res of
               Inl e \<Rightarrow> calendarEvents w' = calendarEvents w
             | Inr oc \<Rightarrow>
                 stepRows (calendarEvents w) (fieldMappings w) (uuids w) m x
                   = (oc, calendarEvents w')
                 \<and> (calendarEvents w' = calendarEvents w \<or> constraintsOk (calendarEvents w')))"
  using assms unfolding processMatch_def
proof (cases rule: andThenE)
  case (fail e)
  from getCalendarEventByBfvId_result [OF fail(1)] fail(2) show ?thesis
    by (simp add: sameTables_def)
next
  case (ok byId w0)
  note p0 = getCalendarEventByBfvId_result [OF ok(1)]
  from ok(2) show ?thesis
  proof (cases rule: andThenE)
    case (fail e)
    from fallback_phase [OF fail(1)] p0 fail(2) show ?thesis by (simp add: sameTables_def)
  next
    case (ok existingEvent w1)
    from p0 have "byId = map_option dbEventToCalendarEvent
             (find (\<lambda>r. db_source r = BFV \<and> db_externalId r = Some x) (calendarEvents w0))"
      by (simp add: sameTables_def)
    from fallback_phase [OF ok(1) this] p0
    have p1: "sameTables w w1 \<and> uuids w1 = uuids w
           \<and> (\<forall>y. Inr existingEvent = Inr y \<longrightarrow> y = resolveExisting (calendarEvents w) m x)"
      by (simp add: sameTables_def)
    from ok(2) show ?thesis
    proof (cases rule: andThenE)
      case (fail e)
      from getDefaultFieldForTeam_result [OF fail(1)] p1 fail(2) show ?thesis
        by (simp add: sameTables_def)
    next
      case (ok defaultField w2)
      note p2 = getDefaultFieldForTeam_result [OF ok(1)]
      have ex: "existingEvent = resolveExisting (calendarEvents w) m x"
        and df: "defaultField = defaultFieldOf (fieldMappings w) m"
        and t2: "calendarEvents w2 = calendarEvents w" "fieldMappings w2 = fieldMappings w"
          "importHistory w2 = importHistory w" "uuids w2 = uuids w"
        using p1 p2 by (simp_all add: sameTables_def defaultFieldOf_def)
      show ?thesis
      proof (cases existingEvent)
        case None
        with ok(2) have "andThen (insertCalendarEvent (newEventFromMatch (uuids w2) m x defaultField))
                  (\<lambda>_. ret (Created (uuids w2))) (w2\<lparr>uuids := Suc (uuids w2)\<rparr>) = (res, w')"
          by (simp add: randomUUID_def)
        then show ?thesis
        proof (cases rule: andThenE)
          case (fail e)
          from insertCalendarEvent_result [OF fail(1)] fail(2) t2 show ?thesis by simp
        next
          case (ok u w3)
          from insertCalendarEvent_result [OF ok(1)] ok(2) t2 None ex df show ?thesis
            by (auto simp: ret_def stepRows_def)
        qed
      next
        case (Some existing)
        show ?thesis
        proof (cases "fst (matchNeedsUpdate existing m defaultField)")
          case False
          with ok(2) Some have "res = Inr (Unchanged (ev_id existing))" "w' = w2"
            by (simp_all add: ret_def split: prod.splits)
          with t2 Some ex df False show ?thesis by (simp add: stepRows_def)
        next
          case True
          with ok(2) Some have "andThen (updateCalendarEventWhereId (ev_id existing)
                                (updateFromMatch m x defaultField))
                       (\<lambda>_. ret (Updated (ev_id existing))) w2 = (res, w')"
            by (simp split: prod.splits)
          then show ?thesis
          proof (cases rule: andThenE)
            case (fail e)
            from updateCalendarEventWhereId_result [OF fail(1)] fail(2) t2 show ?thesis by simp
          next
            case (ok u w3)
            from updateCalendarEventWhereId_result [OF ok(1)] ok(2) t2 Some ex df True
            show ?thesis by (auto simp: ret_def stepRows_def)
          qed
        qed
      qed
    qed
  qed
qed

section \<open>The counters of a run\<close>

lemma recordOutcome_counted:
  "recordsCounted (recordOutcome m res summary) = Suc (recordsCounted summary)"
  by (simp add: recordOutcome_def recordsCounted_def split: sum.splits Outcome.splits)

lemma importLoop_counted:
  "importLoop ms summary seen w = (summary', seen', w')
     \<Longrightarrow> recordsCounted summary' = recordsCounted summary + length ms"
proof (induction ms arbitrary: summary seen w)
  case Nil
  then show ?case by simp
next
  case (Cons m ms)
  obtain res w1 where p: "processMatch m (generateExternalId m) w = (res, w1)"
    by (cases "processMatch m (generateExternalId m) w")
  with Cons.prems have "importLoop ms (recordOutcome m res summary)
      (insert (generateExternalId m) seen) w1 = (summary', seen', w')"
    by (simp add: Let_def)
  from Cons.IH [OF this] show ?case by (simp add: recordOutcome_counted)
qed

lemma importLoop_seen:
  "importLoop ms summary seen w = (summary', seen', w')
     \<Longrightarrow> seen' = seen \<union> set (map generateExternalId ms)"
proof (induction ms arbitrary: summary seen w)
  case Nil
  then show ?case by simp
next
  case (Cons m ms)
  obtain res w1 where p: "processMatch m (generateExternalId m) w = (res, w1)"
    by (cases "processMatch m (generateExternalId m) w")
  with Cons.prems have "importLoop ms (recordOutcome m res summary)
      (insert (generateExternalId m) seen) w1 = (summary', seen', w')"
    by (simp add: Let_def)
  from Cons.IH [OF this] show ?case by auto
qed

lemma archiveLoop_counters:
  "archiveLoop ids seen summary w = (r, summary', w')
     \<Longrightarrow> recordCounters summary' = recordCounters summary"
proof (induction ids arbitrary: summary w)
  case Nil
  then show ?case by simp
next
  case (Cons x ids)
  show ?case
  proof (cases "x \<in> seen")
    case True
    with Cons show ?thesis by simp
  next
    case False
    obtain r1 w1 where s: "selectFirst (\<lambda>r. db_externalId r = Some x \<and> db_source r = BFV
                                \<and> db_status r = ACTIVE) w = (r1, w1)"
      by (cases "selectFirst (\<lambda>r. db_externalId r = Some x \<and> db_source r = BFV
                                \<and> db_status r = ACTIVE) w")
    show ?thesis
    proof (cases r1)
      case (Inl e)
      with Cons.prems False s show ?thesis by simp
    next
      case (Inr found)
      show ?thesis
      proof (cases found)
        case None
        with Cons.prems False s Inr have "archiveLoop ids seen summary w1 = (r, summary', w')"
          by simp
        from Cons.IH [OF this] show ?thesis .
      next
        case (Some event)
        obtain r2 w2 where u: "updateCalendarEventWhereId (db_id event)
            (\<lambda>r. r\<lparr>db_status := ARCHIVED\<rparr>) w1 = (r2, w2)"
          by (cases "updateCalendarEventWhereId (db_id event)
            (\<lambda>r. r\<lparr>db_status := ARCHIVED\<rparr>) w1")
        show ?thesis
        proof (cases r2)
          case (Inl e)
          with Cons.prems False s Inr Some u show ?thesis by simp
        next
          case (Inr u2)
          with Cons.prems False s \<open>r1 = Inr found\<close> Some u
          have "archiveLoop ids seen (summary\<lparr>archivedCount := archivedCount summary + 1\<rparr>) w2
              = (r, summary', w')"
            by simp
          from Cons.IH [OF this] show ?thesis by (simp add: recordCounters_def)
        qed
      qed
    qed
  qed
qed

lemma archivePass_counters:
  "archivePass seen summary w = (summary', w') \<Longrightarrow> recordCounters summary' = recordCounters summary"
  unfolding archivePass_def
  by (auto split: prod.splits sum.splits dest: archiveLoop_counters)

lemma recordsCounted_counters:
  "recordCounters s = recordCounters s' \<Longrightarrow> recordsCounted s = recordsCounted s'"
  by (simp add: recordCounters_def recordsCounted_def)

lemma importBfvMatches_counters:
  assumes "importBfvMatches ms fileName archiveMissing w = (Inr summary', w')"
    and "importLoop ms emptySummary {} w = (summary, seen, w1)"
  shows "recordCounters summary' = recordCounters summary"
proof -
  obtain s2 w2 where a: "(if archiveMissing \<and> seen \<noteq> {} then archivePass seen summary w1
      else (summary, w1)) = (s2, w2)"
    by (cases "if archiveMissing \<and> seen \<noteq> {} then archivePass seen summary w1
      else (summary, w1)")
  then have c: "recordCounters s2 = recordCounters summary"
    by (auto split: if_splits dest: archivePass_counters)
  from assms a have "andThen (createImportHistory s2 fileName) (\<lambda>_. ret s2) w2 = (Inr summary', w')"
    by (simp add: importBfvMatches_def)
  then have "summary' = s2"
    by (cases rule: andThenE) (simp_all add: ret_def)
  with c show ?thesis by simp
qed

text \<open>
  Claim C9. Every record of the batch goes to exactly one of the four counters: after the
  loop, and in the summary the import returns, created + updated + unchanged + errors is
  the number of records, whatever the calendar holds, whichever calls fail and whatever
  the archive flag is.
\<close>

theorem counts_partition_batch:
  "recordsCounted (fst (importLoop matches emptySummary {} w)) = length matches
   \<and> (fst (importBfvMatches matches fileName archiveMissing w) = Inr summary \<longrightarrow>
        createdCount summary + updatedCount summary + unchangedCount summary
          + errorCount summary = length matches)"
proof (intro conjI impI)
  obtain s seen w1 where l: "importLoop matches emptySummary {} w = (s, seen, w1)"
    by (cases "importLoop matches emptySummary {} w")
  have e: "recordsCounted emptySummary = 0"
    by (simp add: recordsCounted_def emptySummary_def)
  have c: "recordsCounted s = length matches"
    using importLoop_counted [OF l] by (simp only: e add_0)
  show "recordsCounted (fst (importLoop matches emptySummary {} w)) = length matches"
    by (simp only: l fst_conv c)
  assume "fst (importBfvMatches matches fileName archiveMissing w) = Inr summary"
  then obtain w' where
    "importBfvMatches matches fileName archiveMissing w = (Inr summary, w')"
    by (cases "importBfvMatches matches fileName archiveMissing w") simp
  from importBfvMatches_counters [OF this l]
  have "recordsCounted summary = recordsCounted s"
    by (rule recordsCounted_counters)
  then have "recordsCounted summary = length matches"
    by (simp only: c)
  then show "createdCount summary + updatedCount summary + unchangedCount summary
          + errorCount summary = length matches"
    by (simp only: recordsCounted_def)
qed

theorem counts_partition_batch_witness:
  "fst (importBfvMatches [exampleMatch, exampleMatch, exampleMatch\<lparr>m_startTime := ''16:00''\<rparr>,
          exampleMatch\<lparr>m_startTime := ''16:00''\<rparr>]
        None True (exampleWorld [] [Some ''timeout'']))
     = Inr \<lparr>createdCount = 1, updatedCount = 1, unchangedCount = 1, archivedCount = 0,
            errorCount = 1, errors = [''Fehler bei SV A vs Club: timeout'']\<rparr>
   \<and> (1::nat) + 1 + 1 + 1 = length [exampleMatch, exampleMatch,
          exampleMatch\<lparr>m_startTime := ''16:00''\<rparr>, exampleMatch\<lparr>m_startTime := ''16:00''\<rparr>]"
proof -
  have e: "fst (importBfvMatches [exampleMatch, exampleMatch,
          exampleMatch\<lparr>m_startTime := ''16:00''\<rparr>, exampleMatch\<lparr>m_startTime := ''16:00''\<rparr>]
        None True (exampleWorld [] [Some ''timeout'']))
     = Inr \<lparr>createdCount = 1, updatedCount = 1, unchangedCount = 1, archivedCount = 0,
            errorCount = 1, errors = [''Fehler bei SV A vs Club: timeout'']\<rparr>"
    by code_simp
  have "createdCount \<lparr>createdCount = 1, updatedCount = 1, unchangedCount = 1, archivedCount = 0,
            errorCount = 1, errors = [''Fehler bei SV A vs Club: timeout'']\<rparr>
      + updatedCount \<lparr>createdCount = 1, updatedCount = 1, unchangedCount = 1, archivedCount = 0,
            errorCount = 1, errors = [''Fehler bei SV A vs Club: timeout'']\<rparr>
      + unchangedCount \<lparr>createdCount = 1, updatedCount = 1, unchangedCount = 1, archivedCount = 0,
            errorCount = 1, errors = [''Fehler bei SV A vs Club: timeout'']\<rparr>
      + errorCount \<lparr>createdCount = 1, updatedCount = 1, unchangedCount = 1, archivedCount = 0,
            errorCount = 1, errors = [''Fehler bei SV A vs Club: timeout'']\<rparr>
      = length [exampleMatch, exampleMatch,
          exampleMatch\<lparr>m_startTime := ''16:00''\<rparr>, exampleMatch\<lparr>m_startTime := ''16:00''\<rparr>]"
    by (rule counts_partition_batch [THEN conjunct2, rule_format, OF e])
  then have "(1::nat) + 1 + 1 + 1 = length [exampleMatch, exampleMatch,
          exampleMatch\<lparr>m_startTime := ''16:00''\<rparr>, exampleMatch\<lparr>m_startTime := ''16:00''\<rparr>]"
    by (simp only: BfvImportSummary.simps)
  with e show ?thesis by (rule conjI)
qed

section \<open>Errors of single records\<close>

text \<open>
  Claim C6 (as amended). When the processing of one record throws, the loop adds one to
  errorCount, appends the entry "Fehler bei {home} vs {away}: {message}" to the error
  list and goes on with the next record; the failed record has changed no table, so the
  remaining records are processed as they would be without it.
\<close>

theorem record_error_isolated:
  assumes "processMatch match (generateExternalId match) w = (Inl message, w')"
  shows "importLoop (match # matches) summary seen w
           = importLoop matches
               (summary\<lparr>errorCount := errorCount summary + 1,
                        errors := errors summary @
                          [''Fehler bei '' @ m_teamHome match @ '' vs '' @ m_teamAway match
                             @ '': '' @ message]\<rparr>)
               (insert (generateExternalId match) seen) w'
         \<and> sameTables w w'"
proof -
  from processMatch_result [OF assms] have "sameTables w w'"
    by (simp add: sameTables_def)
  moreover have "importLoop (match # matches) summary seen w
           = importLoop matches
               (summary\<lparr>errorCount := errorCount summary + 1,
                        errors := errors summary @
                          [''Fehler bei '' @ m_teamHome match @ '' vs '' @ m_teamAway match
                             @ '': '' @ message]\<rparr>)
               (insert (generateExternalId match) seen) w'"
    by (simp add: assms Let_def recordOutcome_def)
  ultimately show ?thesis by (rule conjI [rotated])
qed

theorem record_error_isolated_witness:
  "importLoop [exampleMatch, exampleMatch] emptySummary {} (exampleWorld [] [Some ''timeout''])
     = importLoop [exampleMatch]
         \<lparr>createdCount = 0, updatedCount = 0, unchangedCount = 0, archivedCount = 0,
          errorCount = 1, errors = [''Fehler bei SV A vs Club: timeout'']\<rparr>
         {''sv a|club|2026-03-01|kreisliga''} (exampleWorld [] [])
   \<and> fst (importLoop [exampleMatch, exampleMatch] emptySummary {}
            (exampleWorld [] [Some ''timeout'']))
     = \<lparr>createdCount = 1, updatedCount = 0, unchangedCount = 0, archivedCount = 0,
        errorCount = 1, errors = [''Fehler bei SV A vs Club: timeout'']\<rparr>"
proof -
  have p: "processMatch exampleMatch (generateExternalId exampleMatch)
             (exampleWorld [] [Some ''timeout'']) = (Inl ''timeout'', exampleWorld [] [])"
    by code_simp
  have a: "importLoop [exampleMatch, exampleMatch] emptySummary {}
             (exampleWorld [] [Some ''timeout''])
     = importLoop [exampleMatch]
         \<lparr>createdCount = 0, updatedCount = 0, unchangedCount = 0, archivedCount = 0,
          errorCount = 1, errors = [''Fehler bei SV A vs Club: timeout'']\<rparr>
         {''sv a|club|2026-03-01|kreisliga''} (exampleWorld [] [])"
    using record_error_isolated [OF p, of "[exampleMatch]" emptySummary "{}"]
    by (simp add: emptySummary_def exampleMatch_externalId)
       (simp add: exampleMatch_def)
  have b: "fst (importLoop [exampleMatch, exampleMatch] emptySummary {}
            (exampleWorld [] [Some ''timeout'']))
     = \<lparr>createdCount = 1, updatedCount = 0, unchangedCount = 0, archivedCount = 0,
        errorCount = 1, errors = [''Fehler bei SV A vs Club: timeout'']\<rparr>"
    by code_simp
  from a b show ?thesis by (rule conjI)
qed

theorem error_entry_format_counterexample:
  "errors (fst (importLoop [exampleMatch] emptySummary {} (exampleWorld [] [Some ''timeout''])))
     = [''Fehler bei SV A vs Club: timeout'']
   \<and> errors (fst (importLoop [exampleMatch] emptySummary {}
                   (exampleWorld [] [Some ''timeout''])))
     \<noteq> [m_teamHome exampleMatch @ '' vs '' @ m_teamAway exampleMatch @ '': '' @ ''timeout'']"
  by code_simp

section \<open>The venue of an imported event\<close>

lemma updateFromMatch_keeps [simp]:
  "db_id (updateFromMatch m x df r) = db_id r"
  "db_source (updateFromMatch m x df r) = db_source r"
  "db_status (updateFromMatch m x df r) = db_status r"
  by (simp_all add: updateFromMatch_def)

lemma resolveExisting_row:
  assumes "resolveExisting rows m x = Some e"
  shows "\<exists>r\<in>set rows. db_id r = ev_id e \<and> db_source r = BFV"
  using assms unfolding resolveExisting_def
  by (auto simp: find_Some_iff dbEventToCalendarEvent_def fallbackToCalendarEvent_def
           split: option.splits)

lemma stepRows_Updated:
  assumes "stepRows rows fms u m x = (Updated i, rows')"
  shows "rows' = map (\<lambda>r. if db_id r = i then updateFromMatch m x (defaultFieldOf fms m) r else r)
                   rows
         \<and> (\<exists>r\<in>set rows. db_id r = i \<and> db_source r = BFV)"
  using assms unfolding stepRows_def
  by (auto split: option.splits if_splits dest: resolveExisting_row)

lemma stepRows_Created:
  assumes "stepRows rows fms u m x = (Created i, rows')"
  shows "i = u \<and> rows' = rows @ [newEventFromMatch u m x (defaultFieldOf fms m)]
         \<and> resolveExisting rows m x = None"
  using assms unfolding stepRows_def by (auto split: option.splits if_splits)

lemma stepRows_Unchanged:
  assumes "stepRows rows fms u m x = (Unchanged i, rows')"
  shows "rows' = rows \<and> (\<exists>e. resolveExisting rows m x = Some e \<and> ev_id e = i
           \<and> \<not> fst (matchNeedsUpdate e m (defaultFieldOf fms m)))"
  using assms unfolding stepRows_def by (auto split: option.splits if_splits)

lemma update_where_id:
  assumes "\<And>r. db_id (f r) = db_id r"
  shows "(\<exists>r\<in>set rows. db_id r = i)
           \<Longrightarrow> \<exists>r\<in>set (map (\<lambda>r. if db_id r = i then f r else r) rows). db_id r = i"
    and "r' \<in> set (map (\<lambda>r. if db_id r = i then f r else r) rows) \<Longrightarrow> db_id r' = i
           \<Longrightarrow> \<exists>r\<in>set rows. db_id r = i \<and> r' = f r"
proof -
  show "(\<exists>r\<in>set rows. db_id r = i)
           \<Longrightarrow> \<exists>r\<in>set (map (\<lambda>r. if db_id r = i then f r else r) rows). db_id r = i"
    using assms by (induction rows) auto
  show "r' \<in> set (map (\<lambda>r. if db_id r = i then f r else r) rows) \<Longrightarrow> db_id r' = i
           \<Longrightarrow> \<exists>r\<in>set rows. db_id r = i \<and> r' = f r"
    using assms by (induction rows) (auto split: if_splits)
qed

lemma away_field_written:
  assumes away: "\<not> m_isHomeGame m"
    and p: "processMatch m x w = (Inr oc, w')" and oc: "oc = Created i \<or> oc = Updated i"
  shows "(\<exists>r\<in>set (calendarEvents w'). db_id r = i)
         \<and> (\<forall>r\<in>set (calendarEvents w'). db_id r = i \<longrightarrow> db_field r = None)"
proof -
  from processMatch_result [OF p]
  have s: "stepRows (calendarEvents w) (fieldMappings w) (uuids w) m x = (oc, calendarEvents w')"
    and c: "calendarEvents w' = calendarEvents w \<or> constraintsOk (calendarEvents w')"
    by simp_all
  have df: "defaultFieldOf (fieldMappings w) m = None"
    using away by (simp add: defaultFieldOf_def)
  from oc show ?thesis
  proof
    assume "oc = Created i"
    with s have r: "calendarEvents w'
        = calendarEvents w @ [newEventFromMatch i m x None]"
      using stepRows_Created df by fastforce
    with c have "distinct (map db_id (calendarEvents w @ [newEventFromMatch i m x None]))"
      by (auto simp: constraintsOk_def)
    then have "\<forall>r\<in>set (calendarEvents w). db_id r \<noteq> i"
      by (auto simp: newEventFromMatch_def)
    with r show ?thesis
      by (auto simp: newEventFromMatch_def fieldAssign_def away)
  next
    assume "oc = Updated i"
    with s df have "calendarEvents w'
        = map (\<lambda>r. if db_id r = i then updateFromMatch m x None r else r) (calendarEvents w)"
      and "\<exists>r\<in>set (calendarEvents w). db_id r = i"
      using stepRows_Updated by fastforce+
    then have e: "\<exists>r\<in>set (calendarEvents w'). db_id r = i"
      and u: "\<And>r'. r' \<in> set (calendarEvents w') \<Longrightarrow> db_id r' = i
                \<Longrightarrow> \<exists>r. r' = updateFromMatch m x None r"
      using update_where_id [where f = "updateFromMatch m x None" and rows = "calendarEvents w"
          and i = i]
      by (simp, metis updateFromMatch_keeps(1))
    have "db_field (updateFromMatch m x None r) = None" for r
      by (simp add: updateFromMatch_def fieldAssign_def away)
    with e u show ?thesis by metis
  qed
qed

text \<open>
  Claim C4. For a record that is not a home game the field resolver returns undefined at
  once: it makes no database call, so the state is unchanged and no FieldMapping row
  matters. When the record is then created or updated, the event written has its field
  unset, whatever mapping the team has.
\<close>

theorem away_game_field_unset:
  assumes "\<not> m_isHomeGame match"
  shows "getDefaultFieldForTeam (m_team match) (m_isHomeGame match) w = (Inr None, w)
         \<and> (\<forall>i w'. processMatch match externalId w = (Inr (Created i), w')
                     \<or> processMatch match externalId w = (Inr (Updated i), w')
              \<longrightarrow> (\<exists>r\<in>set (calendarEvents w'). db_id r = i)
                  \<and> (\<forall>r\<in>set (calendarEvents w'). db_id r = i \<longrightarrow> db_field r = None))"
proof -
  have "getDefaultFieldForTeam (m_team match) (m_isHomeGame match) w = (Inr None, w)"
    using assms by (simp add: getDefaultFieldForTeam_def)
  moreover have "(\<exists>r\<in>set (calendarEvents w'). db_id r = i)
                  \<and> (\<forall>r\<in>set (calendarEvents w'). db_id r = i \<longrightarrow> db_field r = None)"
    if "processMatch match externalId w = (Inr (Created i), w')
        \<or> processMatch match externalId w = (Inr (Updated i), w')" for i w'
    using that away_field_written [OF assms] by blast
  ultimately show ?thesis by blast
qed

theorem away_game_field_unset_witness:
  "processMatch awayMatch (generateExternalId awayMatch) (exampleWorld [storedRow] [])
     = (Inr (Updated 7), snd (processMatch awayMatch (generateExternalId awayMatch)
                                (exampleWorld [storedRow] [])))
   \<and> db_field storedRow = Some b_platz
   \<and> map db_field (calendarEvents (snd (processMatch awayMatch (generateExternalId awayMatch)
                                (exampleWorld [storedRow] [])))) = [None]"
proof -
  have a: "\<not> m_isHomeGame awayMatch" by code_simp
  have p: "processMatch awayMatch (generateExternalId awayMatch) (exampleWorld [storedRow] [])
     = (Inr (Updated 7), snd (processMatch awayMatch (generateExternalId awayMatch)
                                (exampleWorld [storedRow] [])))"
    by code_simp
  have l: "map db_id (calendarEvents (snd (processMatch awayMatch (generateExternalId awayMatch)
                                (exampleWorld [storedRow] [])))) = [7]"
    by code_simp
  from away_game_field_unset [OF a, where externalId = "generateExternalId awayMatch"
      and w = "exampleWorld [storedRow] []", THEN conjunct2, rule_format, OF disjI2, OF p]
  have "\<forall>r\<in>set (calendarEvents (snd (processMatch awayMatch (generateExternalId awayMatch)
                                (exampleWorld [storedRow] [])))). db_id r = 7 \<longrightarrow> db_field r = None"
    by (rule conjunct2)
  with l have "map db_field (calendarEvents (snd (processMatch awayMatch
      (generateExternalId awayMatch) (exampleWorld [storedRow] [])))) = [None]"
    by (cases "calendarEvents (snd (processMatch awayMatch
      (generateExternalId awayMatch) (exampleWorld [storedRow] [])))") auto
  moreover have "db_field storedRow = Some b_platz" by code_simp
  ultimately show ?thesis using p by blast
qed

lemma mappedField_None:
  "(\<forall>fm\<in>set fms. \<not> (fm_team fm = team \<and> fm_eventType fm = spiel))
     \<Longrightarrow> mappedField fms team = None"
  by (simp add: mappedField_def find_None_iff)

text \<open>
  Claim C10. When a home-game record updates an existing event and the team has no
  FieldMapping for matches, the resolver yields undefined, the update carries no value
  for the field column, and every event keeps the field it had: the event that was
  updated keeps its venue, it is neither overwritten nor cleared.
\<close>

theorem unmapped_home_update_keeps_field:
  assumes "m_isHomeGame match"
    and "\<forall>fm\<in>set (fieldMappings w). \<not> (fm_team fm = m_team match \<and> fm_eventType fm = spiel)"
    and "processMatch match externalId w = (Inr (Updated i), w')"
  shows "(\<forall>f w1. getDefaultFieldForTeam (m_team match) (m_isHomeGame match) w = (Inr f, w1)
            \<longrightarrow> f = None)
         \<and> fieldAssign (m_isHomeGame match) None = Undefined
         \<and> map db_id (calendarEvents w') = map db_id (calendarEvents w)
         \<and> map db_field (calendarEvents w') = map db_field (calendarEvents w)
         \<and> (\<exists>r\<in>set (calendarEvents w). db_id r = i)"
proof -
  have n: "mappedField (fieldMappings w) (m_team match) = None"
    using assms(2) by (rule mappedField_None)
  then have df: "defaultFieldOf (fieldMappings w) match = None"
    by (simp add: defaultFieldOf_def)
  have g: "f = None"
    if "getDefaultFieldForTeam (m_team match) (m_isHomeGame match) w = (Inr f, w1)" for f w1
    using getDefaultFieldForTeam_result [OF that] n by simp
  have a: "fieldAssign (m_isHomeGame match) None = Undefined"
    using assms(1) by (simp add: fieldAssign_def)
  from processMatch_result [OF assms(3)]
  have "stepRows (calendarEvents w) (fieldMappings w) (uuids w) match externalId
          = (Updated i, calendarEvents w')"
    by simp
  from stepRows_Updated [OF this] df
  have r: "calendarEvents w' = map (\<lambda>r. if db_id r = i
              then updateFromMatch match externalId None r else r) (calendarEvents w)"
    and e: "\<exists>r\<in>set (calendarEvents w). db_id r = i"
    by auto
  have "db_field (updateFromMatch match externalId None r) = db_field r" for r
    by (simp add: updateFromMatch_def a)
  with r have "map db_id (calendarEvents w') = map db_id (calendarEvents w)"
    and "map db_field (calendarEvents w') = map db_field (calendarEvents w)"
    by (simp_all add: comp_def if_distrib cong: if_cong)
  with g a e show ?thesis by blast
qed

theorem unmapped_home_update_keeps_field_witness:
  "processMatch damenMatch (generateExternalId damenMatch) (exampleWorld [storedRow] [])
     = (Inr (Updated 7), snd (processMatch damenMatch (generateExternalId damenMatch)
                                (exampleWorld [storedRow] [])))
   \<and> map db_field (calendarEvents (snd (processMatch damenMatch (generateExternalId damenMatch)
                                (exampleWorld [storedRow] [])))) = [Some b_platz]
   \<and> map db_startTime (calendarEvents (snd (processMatch damenMatch
          (generateExternalId damenMatch) (exampleWorld [storedRow] [])))) = [''16:00'']"
proof -
  have h: "m_isHomeGame damenMatch" by code_simp
  have m: "\<forall>fm\<in>set (fieldMappings (exampleWorld [storedRow] [])).
             \<not> (fm_team fm = m_team damenMatch \<and> fm_eventType fm = spiel)"
    by code_simp
  have p: "processMatch damenMatch (generateExternalId damenMatch) (exampleWorld [storedRow] [])
     = (Inr (Updated 7), snd (processMatch damenMatch (generateExternalId damenMatch)
                                (exampleWorld [storedRow] [])))"
    by code_simp
  have o: "map db_field (calendarEvents (exampleWorld [storedRow] [])) = [Some b_platz]"
    by code_simp
  have t: "map db_startTime (calendarEvents (snd (processMatch damenMatch
          (generateExternalId damenMatch) (exampleWorld [storedRow] [])))) = [''16:00'']"
    by code_simp
  from unmapped_home_update_keeps_field [OF h m p]
  have "map db_field (calendarEvents (snd (processMatch damenMatch
          (generateExternalId damenMatch) (exampleWorld [storedRow] []))))
        = map db_field (calendarEvents (exampleWorld [storedRow] []))"
    by blast
  with o have "map db_field (calendarEvents (snd (processMatch damenMatch
          (generateExternalId damenMatch) (exampleWorld [storedRow] [])))) = [Some b_platz]"
    by (simp only:)
  with p t show ?thesis by blast
qed

section \<open>The constraints of the calendar table\<close>

lemma set_externalKeys:
  "set (externalKeys rows)
     = {(db_source r, x) | r x. r \<in> set rows \<and> db_externalId r = Some x}"
  by (induction rows) (auto simp: externalKeys_def List.map_filter_simps split: option.splits)

lemma externalKeys_Cons:
  "externalKeys (r # rows)
     = (case db_externalId r of None \<Rightarrow> externalKeys rows
        | Some x \<Rightarrow> (db_source r, x) # externalKeys rows)"
  by (simp add: externalKeys_def List.map_filter_simps split: option.splits)

lemma same_id_same_row:
  assumes "distinct (map db_id rows)" "r \<in> set rows" "r' \<in> set rows" "db_id r = db_id r'"
  shows "r = r'"
  using assms by (meson distinct_map inj_onD)

lemma same_key_same_row:
  assumes "distinct (externalKeys rows)" "r \<in> set rows" "r' \<in> set rows"
    "db_source r = db_source r'" "db_externalId r = Some x" "db_externalId r' = Some x"
  shows "r = r'"
  using assms
proof (induction rows)
  case Nil
  then show ?case by simp
next
  case (Cons a rows)
  have d: "distinct (externalKeys rows)"
    using Cons.prems(1) by (simp add: externalKeys_Cons split: option.splits)
  have k: "(db_source a, y) \<notin> set (externalKeys rows)" if "db_externalId a = Some y" for y
    using Cons.prems(1) that by (simp add: externalKeys_Cons)
  show ?case
  proof (cases "r = a")
    case True
    show ?thesis
    proof (cases "r' = a")
      case False
      with Cons.prems have "r' \<in> set rows" by simp
      then have "(db_source r', x) \<in> set (externalKeys rows)"
        using Cons.prems(6) by (auto simp: set_externalKeys)
      with k [of x] True Cons.prems(4,5) show ?thesis by simp
    qed (simp add: True)
  next
    case False
    then have r: "r \<in> set rows" using Cons.prems by simp
    show ?thesis
    proof (cases "r' = a")
      case True
      from r have "(db_source r, x) \<in> set (externalKeys rows)"
        using Cons.prems(5) by (auto simp: set_externalKeys)
      with k [of x] True Cons.prems(4,6) show ?thesis by simp
    next
      case False
      with Cons.prems have "r' \<in> set rows" by simp
      from Cons.IH [OF d r this Cons.prems(4,5,6)] show ?thesis .
    qed
  qed
qed

lemma externalKeys_update_subset:
  assumes "\<And>r. db_source (f r) = db_source r" "\<And>r. db_externalId (f r) = Some x"
    and "\<forall>r\<in>set rows. db_id r = i \<longrightarrow> db_source r = BFV"
  shows "set (externalKeys (map (\<lambda>r. if db_id r = i then f r else r) rows))
           \<subseteq> insert (BFV, x) (set (externalKeys rows))"
  using assms by (auto simp: set_externalKeys split: if_splits)

lemma distinct_externalKeys_update:
  assumes f: "\<And>r. db_source (f r) = db_source r" "\<And>r. db_externalId (f r) = Some x"
    and "distinct (externalKeys rows)" "(BFV, x) \<notin> set (externalKeys rows)"
    and "\<forall>r\<in>set rows. db_id r = i \<longrightarrow> db_source r = BFV"
    and "distinct (map db_id rows)"
  shows "distinct (externalKeys (map (\<lambda>r. if db_id r = i then f r else r) rows))"
  using assms(3-)
proof (induction rows)
  case Nil
  then show ?case by (simp add: externalKeys_def List.map_filter_simps)
next
  case (Cons a rows)
  have d: "distinct (externalKeys rows)" and nx: "(BFV, x) \<notin> set (externalKeys rows)"
    using Cons.prems(1,2) by (auto simp: externalKeys_Cons split: option.splits)
  have src: "\<forall>r\<in>set rows. db_id r = i \<longrightarrow> db_source r = BFV" and di: "distinct (map db_id rows)"
    using Cons.prems(3,4) by simp_all
  note IH = Cons.IH [OF d nx src di]
  show ?case
  proof (cases "db_id a = i")
    case True
    then have "\<forall>r\<in>set rows. db_id r \<noteq> i" using Cons.prems(4) by (fastforce simp: image_iff)
    then have m: "map (\<lambda>r. if db_id r = i then f r else r) rows = rows"
      by (induction rows) auto
    from True Cons.prems(3) have "db_source a = BFV" by simp
    with True m d nx f show ?thesis by (simp add: externalKeys_Cons)
  next
    case False
    have sub: "set (externalKeys (map (\<lambda>r. if db_id r = i then f r else r) rows))
           \<subseteq> insert (BFV, x) (set (externalKeys rows))"
      using externalKeys_update_subset [OF f src] .
    show ?thesis
    proof (cases "db_externalId a")
      case None
      with False IH show ?thesis by (simp add: externalKeys_Cons)
    next
      case (Some y)
      with Cons.prems(1,2) have "(db_source a, y) \<notin> set (externalKeys rows)"
        "(db_source a, y) \<noteq> (BFV, x)"
        by (auto simp: externalKeys_Cons)
      with sub have "(db_source a, y)
          \<notin> set (externalKeys (map (\<lambda>r. if db_id r = i then f r else r) rows))"
        by blast
      with False Some IH show ?thesis by (simp add: externalKeys_Cons)
    qed
  qed
qed

lemma map_db_id_update:
  assumes "\<And>r. db_id (f r) = db_id r"
  shows "map db_id (map (\<lambda>r. if db_id r = i then f r else r) rows) = map db_id rows"
  using assms by (induction rows) auto

lemma constraintsOk_adopt_id:
  assumes "constraintsOk rows"
    and "\<forall>r\<in>set rows. \<not> (db_source r = BFV \<and> db_externalId r = Some x)"
    and "\<forall>r\<in>set rows. db_id r = i \<longrightarrow> db_source r = BFV"
  shows "constraintsOk (map (\<lambda>r. if db_id r = i then updateFromMatch m x df r else r) rows)"
proof -
  have "distinct (map db_id (map (\<lambda>r. if db_id r = i then updateFromMatch m x df r else r) rows))"
    using assms(1) by (simp only: map_db_id_update updateFromMatch_keeps constraintsOk_def)
  moreover have "(BFV, x) \<notin> set (externalKeys rows)"
    using assms(2) by (auto simp: set_externalKeys)
  then have "distinct (externalKeys
      (map (\<lambda>r. if db_id r = i then updateFromMatch m x df r else r) rows))"
    using assms(1,3)
    by (intro distinct_externalKeys_update) (simp_all add: constraintsOk_def updateFromMatch_def)
  ultimately show ?thesis by (simp only: constraintsOk_def)
qed

section \<open>One record when no call fails\<close>

lemma commitCalendarEvents_ok:
  "constraintsOk rows \<Longrightarrow> commitCalendarEvents rows w = (Inr (), w\<lparr>calendarEvents := rows\<rparr>)"
  by (simp add: commitCalendarEvents_def constraintsOk_def)

lemma processMatch_no_fault:
  assumes "faults w = []"
  shows "processMatch m x w =
     (case resolveExisting (calendarEvents w) m x of
        Some e \<Rightarrow>
          if fst (matchNeedsUpdate e m (defaultFieldOf (fieldMappings w) m))
          then andThen (commitCalendarEvents
                          (map (\<lambda>r. if db_id r = ev_id e
                                 then updateFromMatch m x (defaultFieldOf (fieldMappings w) m) r
                                 else r) (calendarEvents w)))
                 (\<lambda>_. ret (Updated (ev_id e))) w
          else (Inr (Unchanged (ev_id e)), w)
      | None \<Rightarrow>
          andThen (commitCalendarEvents
                     (calendarEvents w @
                        [newEventFromMatch (uuids w) m x (defaultFieldOf (fieldMappings w) m)]))
            (\<lambda>_. ret (Created (uuids w))) (w\<lparr>uuids := Suc (uuids w)\<rparr>))"
proof -
  have u: "updateCalendarEventWhereId i f w
      = commitCalendarEvents (map (\<lambda>r. if db_id r = i then f r else r) (calendarEvents w)) w"
    for i f
    using assms by (rule updateCalendarEventWhereId_no_fault)
  have i: "insertCalendarEvent row (w\<lparr>uuids := Suc (uuids w)\<rparr>)
      = commitCalendarEvents (calendarEvents w @ [row]) (w\<lparr>uuids := Suc (uuids w)\<rparr>)" for row
    using assms by (simp add: insertCalendarEvent_no_fault)
  have a: "andThen (updateCalendarEventWhereId i f) g w
      = andThen (commitCalendarEvents
           (map (\<lambda>r. if db_id r = i then f r else r) (calendarEvents w))) g w"
    for i f and g :: "unit \<Rightarrow> Outcome io"
    by (simp add: andThen_def u)
  have b: "andThen (insertCalendarEvent row) g (w\<lparr>uuids := Suc (uuids w)\<rparr>)
      = andThen (commitCalendarEvents (calendarEvents w @ [row])) g
          (w\<lparr>uuids := Suc (uuids w)\<rparr>)"
    for row and g :: "unit \<Rightarrow> Outcome io"
    by (simp add: andThen_def i)
  have l: "andThen (getCalendarEventByBfvId x)
              (\<lambda>byId. andThen (case byId of Some e \<Rightarrow> ret (Some e)
                                   | None \<Rightarrow> selectFallbackEvent m) K) w
           = K (resolveExisting (calendarEvents w) m x) w"
    for K :: "CalendarEvent option \<Rightarrow> Outcome io"
    by (simp add: andThen_def getCalendarEventByBfvId_no_fault [OF assms]
          selectFallbackEvent_no_fault [OF assms] ret_def resolveExisting_def
          split: option.splits)
  have d: "andThen (getDefaultFieldForTeam (m_team m) (m_isHomeGame m)) K w
           = K (defaultFieldOf (fieldMappings w) m) w"
    for K :: "Field option \<Rightarrow> Outcome io"
    by (simp add: andThen_def getDefaultFieldForTeam_no_fault [OF assms] defaultFieldOf_def)
  show ?thesis
    unfolding processMatch_def l d
    by (simp add: randomUUID_def a b ret_def [of "Unchanged i" for i] split: option.splits prod.splits)
qed

section \<open>The fallback lookup\<close>

lemma find_unique:
  assumes "x \<in> set xs" "P x" "\<forall>y\<in>set xs. P y \<longrightarrow> y = x"
  shows "find P xs = Some x"
  using assms
proof (induction xs)
  case Nil
  then show ?case by simp
next
  case (Cons a xs)
  show ?case
  proof (cases "P a")
    case True
    with Cons.prems(3) have "a = x" by (metis list.set_intros(1))
    with True show ?thesis by simp
  next
    case False
    with Cons.prems(1,2) have "x \<in> set xs" by auto
    moreover have "\<forall>y\<in>set xs. P y \<longrightarrow> y = x"
      using Cons.prems(3) by (meson list.set_intros(2))
    ultimately have "find P xs = Some x" using Cons.prems(2) by (intro Cons.IH)
    with False show ?thesis by simp
  qed
qed

lemma processMatch_fallback:
  assumes "faults w = []" and "constraintsOk (calendarEvents w)"
    and "\<forall>r\<in>set (calendarEvents w). \<not> (db_source r = BFV \<and> db_externalId r = Some externalId)"
    and "find (\<lambda>r. db_source r = BFV \<and> db_teamHome r = Some (m_teamHome match)
                  \<and> db_teamAway r = Some (m_teamAway match) \<and> db_status r = ACTIVE)
           (calendarEvents w) = Some E"
  shows "processMatch match externalId w =
     (if fst (matchNeedsUpdate (fallbackToCalendarEvent E) match
                (defaultFieldOf (fieldMappings w) match))
      then (Inr (Updated (db_id E)),
            w\<lparr>calendarEvents :=
                 map (\<lambda>r. if db_id r = db_id E
                          then updateFromMatch match externalId
                                 (defaultFieldOf (fieldMappings w) match) r
                          else r) (calendarEvents w)\<rparr>)
      else (Inr (Unchanged (db_id E)), w))"
proof -
  have n: "find (\<lambda>r. db_source r = BFV \<and> db_externalId r = Some externalId) (calendarEvents w)
           = None"
    using assms(3) by (simp add: find_None_iff)
  have r: "resolveExisting (calendarEvents w) match externalId = Some (fallbackToCalendarEvent E)"
    by (simp add: resolveExisting_def n assms(4))
  have i: "ev_id (fallbackToCalendarEvent E) = db_id E"
    by (simp add: fallbackToCalendarEvent_def)
  from assms(4) have E: "E \<in> set (calendarEvents w)" "db_source E = BFV"
    by (auto simp: find_Some_iff)
  have "\<forall>r\<in>set (calendarEvents w). db_id r = db_id E \<longrightarrow> db_source r = BFV"
    using same_id_same_row [OF _ _ E(1)] assms(2) E(2) by (auto simp: constraintsOk_def)
  from constraintsOk_adopt_id [OF assms(2,3) this]
  have "commitCalendarEvents (map (\<lambda>r. if db_id r = db_id E
          then updateFromMatch match externalId (defaultFieldOf (fieldMappings w) match) r
          else r) (calendarEvents w)) w
       = (Inr (), w\<lparr>calendarEvents := map (\<lambda>r. if db_id r = db_id E
          then updateFromMatch match externalId (defaultFieldOf (fieldMappings w) match) r
          else r) (calendarEvents w)\<rparr>)"
    by (rule commitCalendarEvents_ok)
  then show ?thesis
    by (simp add: processMatch_no_fault [OF assms(1)] r i andThen_def ret_def)
qed


text \<open>
  Claim C2 (as amended). Take a record whose external id no stored BFV event carries,
  and an active BFV event with the record's teamHome, teamAway and date that is the only
  active BFV event with these two team names. Then (no failing call, a calendar that
  satisfies its constraints) the record is resolved to that event and no event is
  created. The event is updated, and takes the new external id, exactly when the change
  detector reports a difference; otherwise it is left as it is, old external id included.
\<close>

theorem fallback_resolves_same_teams:
  assumes "faults w = []" and "constraintsOk (calendarEvents w)"
    and "\<forall>r\<in>set (calendarEvents w). \<not> (db_source r = BFV \<and> db_externalId r = Some externalId)"
    and "E \<in> set (calendarEvents w)" and "db_source E = BFV" and "db_status E = ACTIVE"
    and "db_teamHome E = Some (m_teamHome match)" and "db_teamAway E = Some (m_teamAway match)"
    and "db_date E = m_date match"
    and "\<forall>r\<in>set (calendarEvents w).
           db_source r = BFV \<and> db_teamHome r = Some (m_teamHome match)
           \<and> db_teamAway r = Some (m_teamAway match) \<and> db_status r = ACTIVE
           \<longrightarrow> r = E"
  shows "processMatch match externalId w =
     (if fst (matchNeedsUpdate (fallbackToCalendarEvent E) match
                (defaultFieldOf (fieldMappings w) match))
      then (Inr (Updated (db_id E)),
            w\<lparr>calendarEvents :=
                 map (\<lambda>r. if db_id r = db_id E
                          then updateFromMatch match externalId
                                 (defaultFieldOf (fieldMappings w) match) r
                          else r) (calendarEvents w)\<rparr>)
      else (Inr (Unchanged (db_id E)), w))"
proof -
  have "find (\<lambda>r. db_source r = BFV \<and> db_teamHome r = Some (m_teamHome match)
                  \<and> db_teamAway r = Some (m_teamAway match) \<and> db_status r = ACTIVE)
           (calendarEvents w) = Some E"
  proof (rule find_unique [OF assms(4) _ assms(10)])
    show "db_source E = BFV \<and> db_teamHome E = Some (m_teamHome match)
            \<and> db_teamAway E = Some (m_teamAway match) \<and> db_status E = ACTIVE"
      using assms(5-8) by simp
  qed
  from processMatch_fallback [OF assms(1-3) this] show ?thesis .
qed

theorem fallback_resolves_same_teams_witness:
  "processMatch (renumberedMatch\<lparr>m_startTime := ''16:00''\<rparr>) ''bfv-4711''
      (exampleWorld [storedRowA] [])
     = (Inr (Updated 7),
        exampleWorld [storedRowA\<lparr>db_externalId := Some ''bfv-4711'',
                                 db_startTime := ''16:00''\<rparr>] [])"
proof -
  let ?m = "renumberedMatch\<lparr>m_startTime := ''16:00''\<rparr>"
  let ?w = "exampleWorld [storedRowA] []"
  have 1: "faults ?w = []" by code_simp
  have 2: "constraintsOk (calendarEvents ?w)" by code_simp
  have 3: "\<forall>r\<in>set (calendarEvents ?w).
             \<not> (db_source r = BFV \<and> db_externalId r = Some ''bfv-4711'')"
    by code_simp
  have 4: "storedRowA \<in> set (calendarEvents ?w)" by code_simp
  have 5: "db_source storedRowA = BFV" by code_simp
  have 6: "db_status storedRowA = ACTIVE" by code_simp
  have 7: "db_teamHome storedRowA = Some (m_teamHome ?m)" by code_simp
  have 8: "db_teamAway storedRowA = Some (m_teamAway ?m)" by code_simp
  have 9: "db_date storedRowA = m_date ?m" by code_simp
  have 10: "\<forall>r\<in>set (calendarEvents ?w).
           db_source r = BFV \<and> db_teamHome r = Some (m_teamHome ?m)
           \<and> db_teamAway r = Some (m_teamAway ?m) \<and> db_status r = ACTIVE
           \<longrightarrow> r = storedRowA"
    by code_simp
  have r: "(if fst (matchNeedsUpdate (fallbackToCalendarEvent storedRowA) ?m
                (defaultFieldOf (fieldMappings ?w) ?m))
      then (Inr (Updated (db_id storedRowA)),
            ?w\<lparr>calendarEvents :=
                 map (\<lambda>r. if db_id r = db_id storedRowA
                          then updateFromMatch ?m ''bfv-4711''
                                 (defaultFieldOf (fieldMappings ?w) ?m) r
                          else r) (calendarEvents ?w)\<rparr>)
      else (Inr (Unchanged (db_id storedRowA)), ?w))
     = (Inr (Updated 7) :: string + Outcome,
        exampleWorld [storedRowA\<lparr>db_externalId := Some ''bfv-4711'',
                                 db_startTime := ''16:00''\<rparr>] [])"
    by code_simp
  from fallback_resolves_same_teams [OF 1 2 3 4 5 6 7 8 9 10] r show ?thesis by (rule trans)
qed

theorem fallback_not_updated_counterexample:
  "processMatch renumberedMatch (generateExternalId renumberedMatch)
      (exampleWorld [storedRowA] [])
     = (Inr (Unchanged 7), exampleWorld [storedRowA] [])
   \<and> generateExternalId renumberedMatch = ''bfv-4711''
   \<and> db_externalId storedRowA = Some ''sv a|club|2026-03-01|kreisliga''
   \<and> (db_teamHome storedRowA, db_teamAway storedRowA, db_date storedRowA)
       = (Some (m_teamHome renumberedMatch), Some (m_teamAway renumberedMatch),
          m_date renumberedMatch)
   \<and> processMatch (renumberedMatch\<lparr>m_date := ''2026-05-10''\<rparr>)
         (generateExternalId (renumberedMatch\<lparr>m_date := ''2026-05-10''\<rparr>))
         (exampleWorld [storedRowA, laterRow] [])
     = (Inr (Updated 7),
        exampleWorld [storedRowA\<lparr>db_externalId := Some ''bfv-4711'',
                                 db_date := ''2026-05-10''\<rparr>, laterRow] [])
   \<and> (db_id laterRow, db_teamHome laterRow, db_teamAway laterRow, db_date laterRow,
        db_status laterRow, db_source laterRow)
       = (8, Some (m_teamHome renumberedMatch), Some (m_teamAway renumberedMatch),
          ''2026-05-10'', ACTIVE, BFV)"
  by code_simp

section \<open>The archival pass\<close>

lemma in_externalKeys:
  "(s, x) \<in> set (externalKeys rows)
     \<longleftrightarrow> (\<exists>r\<in>set rows. db_source r = s \<and> db_externalId r = Some x)"
  by (auto simp: set_externalKeys)

lemma set_activeBfvIds:
  "set (activeBfvIds rows)
     = {x. \<exists>r\<in>set rows. db_source r = BFV \<and> db_status r = ACTIVE \<and> db_externalId r = Some x}"
  by (induction rows)
     (auto simp: activeBfvIds_def List.map_filter_simps split: option.splits)

lemma activeBfvIds_Nil [simp]: "activeBfvIds [] = []"
  by (simp add: activeBfvIds_def List.map_filter_simps)

lemma activeBfvIds_Cons:
  "activeBfvIds (r # rows)
     = (if db_source r = BFV \<and> db_status r = ACTIVE
        then (case db_externalId r of None \<Rightarrow> activeBfvIds rows
              | Some x \<Rightarrow> x # activeBfvIds rows)
        else activeBfvIds rows)"
  by (simp add: activeBfvIds_def List.map_filter_simps split: option.splits)

lemma distinct_activeBfvIds:
  "distinct (externalKeys rows) \<Longrightarrow> distinct (activeBfvIds rows)"
proof (induction rows)
  case Nil
  then show ?case by (simp add: activeBfvIds_def List.map_filter_simps)
next
  case (Cons a rows)
  then have d: "distinct (activeBfvIds rows)"
    by (simp add: externalKeys_Cons split: option.splits)
  have "x \<notin> set (activeBfvIds rows)"
    if "db_source a = BFV" "db_externalId a = Some x" for x
  proof
    assume "x \<in> set (activeBfvIds rows)"
    then obtain r where "r \<in> set rows" "db_source r = BFV" "db_externalId r = Some x"
      unfolding set_activeBfvIds by blast
    then have "(BFV, x) \<in> set (externalKeys rows)"
      unfolding in_externalKeys by blast
    with Cons.prems that show False by (simp add: externalKeys_Cons)
  qed
  with d show ?case by (simp add: activeBfvIds_Cons split: option.splits)
qed

lemma archived_count:
  "length (filter (\<lambda>x. x \<notin> seen) (activeBfvIds rows)) = length (filter (archivable seen) rows)"
  by (induction rows) (auto simp: activeBfvIds_Cons archivable_def split: option.splits)

lemma constraintsOk_archive:
  assumes "constraintsOk rows"
  shows "constraintsOk (map (\<lambda>r. if Q r then r\<lparr>db_status := ARCHIVED\<rparr> else r) rows)"
proof -
  have "map db_id (map (\<lambda>r. if Q r then r\<lparr>db_status := ARCHIVED\<rparr> else r) rows) = map db_id rows"
    by (induction rows) auto
  moreover have "externalKeys (map (\<lambda>r. if Q r then r\<lparr>db_status := ARCHIVED\<rparr> else r) rows)
      = externalKeys rows"
    by (induction rows) (auto simp: externalKeys_Cons split: option.splits)
  ultimately show ?thesis using assms by (simp only: constraintsOk_def)
qed

lemma archiveLoop_no_fault:
  assumes "faults w = []" "constraintsOk (calendarEvents w)" "distinct ids"
    and "\<forall>x\<in>set ids. \<exists>r\<in>set (calendarEvents w).
            db_source r = BFV \<and> db_status r = ACTIVE \<and> db_externalId r = Some x"
  shows "archiveLoop ids seen s w =
     (Inr (),
      s\<lparr>archivedCount := archivedCount s + length (filter (\<lambda>x. x \<notin> seen) ids)\<rparr>,
      w\<lparr>calendarEvents :=
           map (\<lambda>r. if archivable seen r \<and> (\<exists>x\<in>set ids. db_externalId r = Some x)
                    then r\<lparr>db_status := ARCHIVED\<rparr> else r) (calendarEvents w)\<rparr>)"
  using assms
proof (induction ids arbitrary: s w)
  case Nil
  then show ?case by simp
next
  case (Cons x ids)
  have sub: "distinct ids" "\<forall>y\<in>set ids. \<exists>r\<in>set (calendarEvents w).
            db_source r = BFV \<and> db_status r = ACTIVE \<and> db_externalId r = Some y"
    using Cons.prems(3,4) by simp_all
  show ?case
  proof (cases "x \<in> seen")
    case True
    have eq: "(\<lambda>r. if archivable seen r \<and> (\<exists>y\<in>set (x # ids). db_externalId r = Some y)
                   then r\<lparr>db_status := ARCHIVED\<rparr> else r)
          = (\<lambda>r. if archivable seen r \<and> (\<exists>y\<in>set ids. db_externalId r = Some y)
                   then r\<lparr>db_status := ARCHIVED\<rparr> else r)"
      using True by (intro ext) (auto simp: archivable_def)
    have st: "archiveLoop (x # ids) seen s w = archiveLoop ids seen s w"
      using True by simp
    have cnt: "length (filter (\<lambda>x. x \<notin> seen) (x # ids))
                 = length (filter (\<lambda>x. x \<notin> seen) ids)"
      using True by simp
    show ?thesis
      unfolding st Cons.IH [OF Cons.prems(1,2) sub] eq cnt by (rule refl)
  next
    case False
    let ?P = "\<lambda>r. db_externalId r = Some x \<and> db_source r = BFV \<and> db_status r = ACTIVE"
    from Cons.prems(4) obtain E where E: "find ?P (calendarEvents w) = Some E"
      by (cases "find ?P (calendarEvents w)") (auto simp: find_None_iff)
    then have Ein: "E \<in> set (calendarEvents w)" and EP: "?P E"
      by (auto simp: find_Some_iff)
    let ?g = "\<lambda>r. if db_id r = db_id E then r\<lparr>db_status := ARCHIVED\<rparr> else r"
    let ?rows1 = "map ?g (calendarEvents w)"
    let ?w1 = "w\<lparr>calendarEvents := ?rows1\<rparr>"
    have ok1: "constraintsOk ?rows1"
      using Cons.prems(2) by (rule constraintsOk_archive)
    have sel: "selectFirst ?P w = (Inr (Some E), w)"
      by (simp add: selectFirst_no_fault [OF Cons.prems(1)] E)
    have upd: "updateCalendarEventWhereId (db_id E) (\<lambda>r. r\<lparr>db_status := ARCHIVED\<rparr>) w
                 = (Inr (), ?w1)"
      by (simp add: updateCalendarEventWhereId_no_fault [OF Cons.prems(1)]
            commitCalendarEvents_ok [OF ok1])
    have step: "archiveLoop (x # ids) seen s w
        = archiveLoop ids seen (s\<lparr>archivedCount := archivedCount s + 1\<rparr>) ?w1"
      using False by (simp add: sel upd)
    have f1: "faults ?w1 = []" using Cons.prems(1) by simp
    have c1: "constraintsOk (calendarEvents ?w1)" using ok1 by simp
    have dids: "distinct (map db_id (calendarEvents w))"
      and dkeys: "distinct (externalKeys (calendarEvents w))"
      using Cons.prems(2) by (simp_all add: constraintsOk_def)
    have e1: "\<forall>y\<in>set ids. \<exists>r\<in>set (calendarEvents ?w1).
            db_source r = BFV \<and> db_status r = ACTIVE \<and> db_externalId r = Some y"
    proof
      fix y assume y: "y \<in> set ids"
      with sub(2) obtain r where r: "r \<in> set (calendarEvents w)" "db_source r = BFV"
        "db_status r = ACTIVE" "db_externalId r = Some y"
        by blast
      from y Cons.prems(3) have "y \<noteq> x" by auto
      with r(4) EP have "r \<noteq> E" by auto
      with same_id_same_row [OF dids r(1) Ein] have "db_id r \<noteq> db_id E" by blast
      then have gr: "?g r = r" by simp
      from r(1) have "?g r \<in> ?g ` set (calendarEvents w)" by (rule imageI)
      then have "?g r \<in> set ?rows1" by (simp only: set_map)
      then have "r \<in> set ?rows1" by (simp only: gr)
      with r show "\<exists>r\<in>set (calendarEvents ?w1).
            db_source r = BFV \<and> db_status r = ACTIVE \<and> db_externalId r = Some y"
        by auto
    qed
    have pointwise: "(if archivable seen (?g r) \<and> (\<exists>y\<in>set ids. db_externalId (?g r) = Some y)
                      then (?g r)\<lparr>db_status := ARCHIVED\<rparr> else ?g r)
         = (if archivable seen r \<and> (\<exists>y\<in>set (x # ids). db_externalId r = Some y)
            then r\<lparr>db_status := ARCHIVED\<rparr> else r)"
      if rin: "r \<in> set (calendarEvents w)" for r
    proof (cases "db_id r = db_id E")
      case True
      with same_id_same_row [OF dids rin Ein] have "r = E" by simp
      have g: "?g E = E\<lparr>db_status := ARCHIVED\<rparr>" by simp
      have na: "\<not> archivable seen (E\<lparr>db_status := ARCHIVED\<rparr>)"
        by (simp add: archivable_def)
      have a: "archivable seen E \<and> (\<exists>y\<in>set (x # ids). db_externalId E = Some y)"
        using EP False by (simp add: archivable_def)
      show ?thesis
        unfolding \<open>r = E\<close> g by (simp only: na a if_True if_False simp_thms)
    next
      case False
      have "db_externalId r \<noteq> Some x" if "archivable seen r"
      proof
        assume "db_externalId r = Some x"
        with same_key_same_row [OF dkeys rin Ein _ this] that EP have "r = E"
          by (simp add: archivable_def)
        with False show False by simp
      qed
      then have c: "(archivable seen r \<and> (\<exists>y\<in>set (x # ids). db_externalId r = Some y))
          = (archivable seen r \<and> (\<exists>y\<in>set ids. db_externalId r = Some y))"
        by auto
      have gr: "?g r = r" using False by simp
      show ?thesis by (simp only: gr c)
    qed
    have rows: "map (\<lambda>r. if archivable seen r \<and> (\<exists>y\<in>set ids. db_externalId r = Some y)
                    then r\<lparr>db_status := ARCHIVED\<rparr> else r) ?rows1
        = map (\<lambda>r. if archivable seen r \<and> (\<exists>y\<in>set (x # ids). db_externalId r = Some y)
                    then r\<lparr>db_status := ARCHIVED\<rparr> else r) (calendarEvents w)"
      unfolding map_map comp_def by (rule map_cong [OF refl]) (rule pointwise)
    have r1: "?w1\<lparr>calendarEvents := R\<rparr> = w\<lparr>calendarEvents := R\<rparr>" for R
      by simp
    have r2: "calendarEvents ?w1 = ?rows1" by simp
    have r3: "(s\<lparr>archivedCount := archivedCount s + 1\<rparr>)
                \<lparr>archivedCount := archivedCount (s\<lparr>archivedCount := archivedCount s + 1\<rparr>)
                    + length (filter (\<lambda>x. x \<notin> seen) ids)\<rparr>
              = s\<lparr>archivedCount := archivedCount s
                    + length (filter (\<lambda>x. x \<notin> seen) (x # ids))\<rparr>"
      using False by simp
    show ?thesis
      unfolding step Cons.IH [OF f1 c1 sub(1) e1] r2 rows r1 r3 by (rule refl)
  qed
qed

lemma archivePass_no_fault:
  assumes "faults w = []" "constraintsOk (calendarEvents w)"
  shows "archivePass seen s w =
     (s\<lparr>archivedCount := archivedCount s + length (filter (archivable seen) (calendarEvents w))\<rparr>,
      w\<lparr>calendarEvents :=
           map (\<lambda>r. if archivable seen r then r\<lparr>db_status := ARCHIVED\<rparr> else r)
             (calendarEvents w)\<rparr>)"
proof -
  have ids: "getBfvEventIds w = (Inr (activeBfvIds (calendarEvents w)), w)"
    by (simp add: getBfvEventIds_no_fault [OF assms(1)] activeBfvIds_def)
  have d: "distinct (activeBfvIds (calendarEvents w))"
    using assms(2) by (intro distinct_activeBfvIds) (simp add: constraintsOk_def)
  have e: "\<forall>x\<in>set (activeBfvIds (calendarEvents w)). \<exists>r\<in>set (calendarEvents w).
            db_source r = BFV \<and> db_status r = ACTIVE \<and> db_externalId r = Some x"
    by (simp add: set_activeBfvIds)
  have m: "map (\<lambda>r. if archivable seen r
                      \<and> (\<exists>x\<in>set (activeBfvIds (calendarEvents w)). db_externalId r = Some x)
                    then r\<lparr>db_status := ARCHIVED\<rparr> else r) (calendarEvents w)
         = map (\<lambda>r. if archivable seen r then r\<lparr>db_status := ARCHIVED\<rparr> else r)
             (calendarEvents w)"
  proof (rule map_cong [OF refl])
    fix r assume r: "r \<in> set (calendarEvents w)"
    have "\<exists>x\<in>set (activeBfvIds (calendarEvents w)). db_externalId r = Some x"
      if "archivable seen r"
      using that r by (auto simp: archivable_def set_activeBfvIds split: option.splits)
    then have "(archivable seen r
                 \<and> (\<exists>x\<in>set (activeBfvIds (calendarEvents w)). db_externalId r = Some x))
               = archivable seen r"
      by blast
    then show "(if archivable seen r
                  \<and> (\<exists>x\<in>set (activeBfvIds (calendarEvents w)). db_externalId r = Some x)
                then r\<lparr>db_status := ARCHIVED\<rparr> else r)
             = (if archivable seen r then r\<lparr>db_status := ARCHIVED\<rparr> else r)"
      by (simp only:)
  qed
  have al: "archiveLoop (activeBfvIds (calendarEvents w)) seen s w =
     (Inr (),
      s\<lparr>archivedCount := archivedCount s
          + length (filter (archivable seen) (calendarEvents w))\<rparr>,
      w\<lparr>calendarEvents :=
           map (\<lambda>r. if archivable seen r then r\<lparr>db_status := ARCHIVED\<rparr> else r)
             (calendarEvents w)\<rparr>)"
    unfolding archiveLoop_no_fault [OF assms d e] m archived_count by (rule refl)
  show ?thesis
    by (simp add: archivePass_def ids al)
qed

section \<open>What the loop keeps\<close>

lemma andThen_commit_faults:
  assumes "andThen (commitCalendarEvents rows) (\<lambda>_. ret v) w1 = (r, w2)"
  shows "faults w2 = faults w1"
  using assms
proof (cases rule: andThenE)
  case (fail e)
  from commitCalendarEvents_result [OF fail(1)] show ?thesis by simp
next
  case (ok u w3)
  from commitCalendarEvents_result [OF ok(1)] ok(2) show ?thesis by (simp add: ret_def)
qed

lemma processMatch_keeps_no_fault:
  assumes "faults w = []" "processMatch m x w = (r, w')"
  shows "faults w' = []"
proof (cases "resolveExisting (calendarEvents w) m x")
  case None
  with assms(2) have "andThen (commitCalendarEvents
                     (calendarEvents w @
                        [newEventFromMatch (uuids w) m x (defaultFieldOf (fieldMappings w) m)]))
            (\<lambda>_. ret (Created (uuids w))) (w\<lparr>uuids := Suc (uuids w)\<rparr>) = (r, w')"
    by (simp add: processMatch_no_fault [OF assms(1)])
  from andThen_commit_faults [OF this] assms(1) show ?thesis by simp
next
  case (Some e)
  show ?thesis
  proof (cases "fst (matchNeedsUpdate e m (defaultFieldOf (fieldMappings w) m))")
    case True
    with Some assms(2) have "andThen (commitCalendarEvents
                          (map (\<lambda>r. if db_id r = ev_id e
                                 then updateFromMatch m x (defaultFieldOf (fieldMappings w) m) r
                                 else r) (calendarEvents w)))
                 (\<lambda>_. ret (Updated (ev_id e))) w = (r, w')"
      by (simp add: processMatch_no_fault [OF assms(1)])
    from andThen_commit_faults [OF this] assms(1) show ?thesis by simp
  next
    case False
    with Some assms(2) have "w' = w"
      by (simp add: processMatch_no_fault [OF assms(1)])
    with assms(1) show ?thesis by simp
  qed
qed

lemma processMatch_keeps_constraints:
  assumes "constraintsOk (calendarEvents w)" "processMatch m x w = (r, w')"
  shows "constraintsOk (calendarEvents w')"
  using processMatch_result [OF assms(2)] assms(1) by (auto split: sum.splits)

lemma importLoop_keeps:
  assumes "importLoop ms s seen w = (s', seen', w')"
  shows "(faults w = [] \<longrightarrow> faults w' = [])
         \<and> (constraintsOk (calendarEvents w) \<longrightarrow> constraintsOk (calendarEvents w'))
         \<and> fieldMappings w' = fieldMappings w"
  using assms
proof (induction ms arbitrary: s seen w)
  case Nil
  then show ?case by simp
next
  case (Cons m ms)
  obtain res w1 where p: "processMatch m (generateExternalId m) w = (res, w1)"
    by (cases "processMatch m (generateExternalId m) w")
  with Cons.prems have "importLoop ms (recordOutcome m res s)
      (insert (generateExternalId m) seen) w1 = (s', seen', w')"
    by (simp add: Let_def)
  from Cons.IH [OF this] processMatch_keeps_no_fault [OF _ p]
    processMatch_keeps_constraints [OF _ p] processMatch_result [OF p]
  show ?case by simp
qed

lemma stepRows_keeps_status:
  assumes "stepRows rows fms u m x = (oc, rows')" "E \<in> set rows"
  shows "\<exists>E'\<in>set rows'. db_id E' = db_id E \<and> db_status E' = db_status E"
proof (cases oc)
  case (Created i)
  with assms stepRows_Created show ?thesis by fastforce
next
  case (Updated i)
  with assms(1) have r: "rows' = map (\<lambda>r. if db_id r = i
      then updateFromMatch m x (defaultFieldOf fms m) r else r) rows"
    using stepRows_Updated by blast
  let ?g = "\<lambda>r. if db_id r = i then updateFromMatch m x (defaultFieldOf fms m) r else r"
  from assms(2) have "?g E \<in> ?g ` set rows" by (rule imageI)
  then have "?g E \<in> set rows'" unfolding r by (simp only: set_map)
  moreover have "db_id (?g E) = db_id E" "db_status (?g E) = db_status E" by simp_all
  ultimately show ?thesis by blast
next
  case (Unchanged i)
  with assms stepRows_Unchanged show ?thesis by fastforce
qed

lemma processMatch_keeps_status:
  assumes "processMatch m x w = (r, w')" "E \<in> set (calendarEvents w)"
  shows "\<exists>E'\<in>set (calendarEvents w'). db_id E' = db_id E \<and> db_status E' = db_status E"
proof (cases r)
  case (Inl e)
  with processMatch_result [OF assms(1)] assms(2) show ?thesis by auto
next
  case (Inr oc)
  with processMatch_result [OF assms(1)]
  have "stepRows (calendarEvents w) (fieldMappings w) (uuids w) m x = (oc, calendarEvents w')"
    by simp
  from stepRows_keeps_status [OF this assms(2)] show ?thesis .
qed

lemma importLoop_keeps_status:
  assumes "importLoop ms s seen w = (s', seen', w')" "E \<in> set (calendarEvents w)"
  shows "\<exists>E'\<in>set (calendarEvents w'). db_id E' = db_id E \<and> db_status E' = db_status E"
  using assms
proof (induction ms arbitrary: s seen w E)
  case Nil
  then show ?case by auto
next
  case (Cons m ms)
  obtain res w1 where p: "processMatch m (generateExternalId m) w = (res, w1)"
    by (cases "processMatch m (generateExternalId m) w")
  with Cons.prems have l: "importLoop ms (recordOutcome m res s)
      (insert (generateExternalId m) seen) w1 = (s', seen', w')"
    by (simp add: Let_def)
  from processMatch_keeps_status [OF p Cons.prems(2)] obtain E1
    where E1: "E1 \<in> set (calendarEvents w1)" "db_id E1 = db_id E" "db_status E1 = db_status E"
    by blast
  from Cons.IH [OF l E1(1)] E1(2,3) show ?case by auto
qed

lemma recordOutcome_archivedCount:
  "archivedCount (recordOutcome m res s) = archivedCount s"
  by (simp add: recordOutcome_def split: sum.splits Outcome.splits)

lemma importLoop_archivedCount:
  "importLoop ms s seen w = (s', seen', w') \<Longrightarrow> archivedCount s' = archivedCount s"
proof (induction ms arbitrary: s seen w)
  case Nil
  then show ?case by simp
next
  case (Cons m ms)
  obtain res w1 where p: "processMatch m (generateExternalId m) w = (res, w1)"
    by (cases "processMatch m (generateExternalId m) w")
  with Cons.prems have "importLoop ms (recordOutcome m res s)
      (insert (generateExternalId m) seen) w1 = (s', seen', w')"
    by (simp add: Let_def)
  from Cons.IH [OF this] show ?case by (simp add: recordOutcome_archivedCount)
qed

lemma createImportHistory_result:
  assumes "createImportHistory s fileName w = (r, w')"
  shows "calendarEvents w' = calendarEvents w \<and> fieldMappings w' = fieldMappings w"
  using assms unfolding createImportHistory_def randomUUID_def
  by (simp, elim andThenE) (auto dest!: dbCall_sameTables simp: sameTables_def)

lemma import_archiving_no_fault:
  assumes "faults w = []" "constraintsOk (calendarEvents w)" "matches \<noteq> []"
    and l: "importLoop matches emptySummary {} w = (summary, seen, w1)"
  shows "seen = set (map generateExternalId matches)
    \<and> importBfvMatches matches fileName True w =
       (Inr (summary\<lparr>archivedCount := length (filter (archivable seen) (calendarEvents w1))\<rparr>),
        w1\<lparr>calendarEvents :=
              map (\<lambda>r. if archivable seen r then r\<lparr>db_status := ARCHIVED\<rparr> else r)
                (calendarEvents w1),
            uuids := Suc (uuids w1),
            importHistory := importHistory w1 @
              [historyRow (uuids w1)
                 (summary\<lparr>archivedCount :=
                            length (filter (archivable seen) (calendarEvents w1))\<rparr>)
                 fileName]\<rparr>)"
proof -
  from importLoop_seen [OF l] have seen: "seen = set (map generateExternalId matches)" by simp
  with assms(3) have ne: "seen \<noteq> {}" by simp
  from importLoop_keeps [OF l] assms(1,2)
  have f1: "faults w1 = []" and c1: "constraintsOk (calendarEvents w1)" by simp_all
  from importLoop_archivedCount [OF l] have a0: "archivedCount summary = 0"
    by (simp add: emptySummary_def)
  let ?s2 = "summary\<lparr>archivedCount := length (filter (archivable seen) (calendarEvents w1))\<rparr>"
  let ?w2 = "w1\<lparr>calendarEvents :=
           map (\<lambda>r. if archivable seen r then r\<lparr>db_status := ARCHIVED\<rparr> else r)
             (calendarEvents w1)\<rparr>"
  have ap: "archivePass seen summary w1 = (?s2, ?w2)"
    unfolding archivePass_no_fault [OF f1 c1] a0 by simp
  have f2: "faults ?w2 = []" using f1 by simp
  have "importBfvMatches matches fileName True w
          = andThen (createImportHistory ?s2 fileName) (\<lambda>_. ret ?s2) ?w2"
    unfolding importBfvMatches_def l using ne by (simp add: ap)
  also have "\<dots> = (Inr ?s2, ?w2\<lparr>uuids := Suc (uuids ?w2),
        importHistory := importHistory ?w2 @ [historyRow (uuids ?w2) ?s2 fileName]\<rparr>)"
    by (simp add: andThen_def createImportHistory_no_fault [OF f2] ret_def)
  finally show ?thesis using seen by simp
qed

lemma import_without_archiving:
  assumes "importBfvMatches matches fileName False w = (res, w')"
  shows "(\<forall>E\<in>set (calendarEvents w). \<exists>E'\<in>set (calendarEvents w').
            db_id E' = db_id E \<and> db_status E' = db_status E)
         \<and> (\<forall>s. res = Inr s \<longrightarrow> archivedCount s = 0)"
proof -
  obtain summary seen w1 where l: "importLoop matches emptySummary {} w = (summary, seen, w1)"
    by (cases "importLoop matches emptySummary {} w")
  from importLoop_archivedCount [OF l] have a0: "archivedCount summary = 0"
    by (simp add: emptySummary_def)
  from assms have h: "andThen (createImportHistory summary fileName) (\<lambda>_. ret summary) w1
      = (res, w')"
    unfolding importBfvMatches_def l by simp
  then have "calendarEvents w' = calendarEvents w1 \<and> (\<forall>s. res = Inr s \<longrightarrow> s = summary)"
    by (cases rule: andThenE) (auto dest!: createImportHistory_result simp: ret_def)
  with importLoop_keeps_status [OF l] a0 show ?thesis by auto
qed

lemma createImportHistory_next_call:
  assumes "fst (dbCall w) = Inr ()"
  shows "createImportHistory s fileName w =
     (Inr (), (snd (dbCall w))\<lparr>uuids := Suc (uuids w),
        importHistory := importHistory w @ [historyRow (uuids w) s fileName]\<rparr>)"
  using assms
  by (auto simp: createImportHistory_def randomUUID_def andThen_def dbCall_def historyRow_def
        orNull_def truthy_def split: option.splits list.splits)

lemma import_is_history_write:
  assumes l: "importLoop matches emptySummary {} w = (summary, seen, w1)"
    and p: "(if archiveMissing \<and> seen \<noteq> {} then archivePass seen summary w1
             else (summary, w1)) = (s2, w2)"
  shows "importBfvMatches matches fileName archiveMissing w
           = (case createImportHistory s2 fileName w2 of
                (Inl e, w3) \<Rightarrow> (Inl e, w3)
              | (Inr u, w3) \<Rightarrow> (Inr s2, w3))"
proof -
  have "importBfvMatches matches fileName archiveMissing w
          = andThen (createImportHistory s2 fileName) (\<lambda>_. ret s2) w2"
    unfolding importBfvMatches_def l prod.case p by (rule refl)
  then show ?thesis
    by (simp add: andThen_def ret_def split: prod.splits sum.splits)
qed

lemma import_after_pass:
  assumes l: "importLoop matches emptySummary {} w = (summary, seen, w1)"
    and p: "(if archiveMissing \<and> seen \<noteq> {} then archivePass seen summary w1
             else (summary, w1)) = (s2, w2)"
  shows "recordCounters s2 = recordCounters summary
    \<and> importBfvMatches matches fileName archiveMissing w
        = (case createImportHistory s2 fileName w2 of
             (Inl e, w3) \<Rightarrow> (Inl e, w3)
           | (Inr u, w3) \<Rightarrow> (Inr s2, w3))
    \<and> (fst (dbCall w2) = Inr () \<longrightarrow>
         importBfvMatches matches fileName archiveMissing w
           = (Inr s2, (snd (dbCall w2))\<lparr>uuids := Suc (uuids w2),
                 importHistory := importHistory w2 @ [historyRow (uuids w2) s2 fileName]\<rparr>))"
proof (intro conjI impI)
  from p show "recordCounters s2 = recordCounters summary"
    by (auto split: if_splits dest: archivePass_counters)
  show eq: "importBfvMatches matches fileName archiveMissing w
        = (case createImportHistory s2 fileName w2 of
             (Inl e, w3) \<Rightarrow> (Inl e, w3)
           | (Inr u, w3) \<Rightarrow> (Inr s2, w3))"
    using l p by (rule import_is_history_write)
  assume "fst (dbCall w2) = Inr ()"
  from createImportHistory_next_call [OF this]
  show "importBfvMatches matches fileName archiveMissing w
           = (Inr s2, (snd (dbCall w2))\<lparr>uuids := Suc (uuids w2),
                 importHistory := importHistory w2 @ [historyRow (uuids w2) s2 fileName]\<rparr>)"
    unfolding eq by simp
qed

lemma failing_id_query_is_dropped:
  assumes l: "importLoop matches emptySummary {} w = (summary, seen, w1)"
    and ne: "seen \<noteq> {}"
    and g: "getBfvEventIds w1 = (Inl e, w2)"
    and h: "fst (dbCall w2) = Inr ()"
  shows "importBfvMatches matches fileName True w
           = (Inr summary, (snd (dbCall w2))\<lparr>uuids := Suc (uuids w2),
                 importHistory := importHistory w2 @ [historyRow (uuids w2) summary fileName]\<rparr>)"
proof -
  have "archivePass seen summary w1 = (summary, w2)"
    by (simp add: archivePass_def g)
  with ne have p: "(if True \<and> seen \<noteq> {} then archivePass seen summary w1
             else (summary, w1)) = (summary, w2)"
    by simp
  from import_after_pass [OF l p] h show ?thesis by blast
qed

lemma failing_archive_loop_is_dropped:
  assumes l: "importLoop matches emptySummary {} w = (summary, seen, w1)"
    and ne: "seen \<noteq> {}"
    and g: "getBfvEventIds w1 = (Inr ids, w1')"
    and a: "archiveLoop ids seen summary w1' = (Inl e, s2, w2)"
    and h: "fst (dbCall w2) = Inr ()"
  shows "recordCounters s2 = recordCounters summary
      \<and> importBfvMatches matches fileName True w
           = (Inr s2, (snd (dbCall w2))\<lparr>uuids := Suc (uuids w2),
                 importHistory := importHistory w2 @ [historyRow (uuids w2) s2 fileName]\<rparr>)"
proof -
  have "archivePass seen summary w1 = (s2, w2)"
    by (simp add: archivePass_def g a)
  with ne have p: "(if True \<and> seen \<noteq> {} then archivePass seen summary w1
             else (summary, w1)) = (s2, w2)"
    by simp
  from import_after_pass [OF l p] h show ?thesis by blast
qed

text \<open>
  Claim C5. With archiveMissing set, a non-empty batch, a calendar that satisfies its
  constraints and no failing call, the import sets every event that is active, from BFV
  and carries an external id outside the set of ids seen in the run to ARCHIVED, leaves
  all other events as the loop left them, and reports as archivedCount the number of
  events so archived. Without archiveMissing every event of the calendar keeps its status
  and archivedCount is 0. A failure during the pass is not raised to the caller: when the
  query for the stored ids fails, or a select or an update of the pass fails, and the
  history write that follows succeeds, the import returns the summary, with the counters
  for created, updated, unchanged and failed records and the error list that the loop
  computed. In every run the import is the history write on the summary and the state
  the pass left: it returns that summary whenever the write succeeds, and the only
  exception that reaches the caller is the one this write throws.
\<close>

theorem archival_pass:
  "(faults w = [] \<and> constraintsOk (calendarEvents w) \<and> matches \<noteq> []
      \<and> importLoop matches emptySummary {} w = (summary, seen, w1)
    \<longrightarrow> seen = set (map generateExternalId matches)
      \<and> importBfvMatches matches fileName True w =
         (Inr (summary\<lparr>archivedCount := length (filter (archivable seen) (calendarEvents w1))\<rparr>),
          w1\<lparr>calendarEvents :=
                map (\<lambda>r. if archivable seen r then r\<lparr>db_status := ARCHIVED\<rparr> else r)
                  (calendarEvents w1),
              uuids := Suc (uuids w1),
              importHistory := importHistory w1 @
                [historyRow (uuids w1)
                   (summary\<lparr>archivedCount :=
                              length (filter (archivable seen) (calendarEvents w1))\<rparr>)
                   fileName]\<rparr>))
   \<and> (importBfvMatches matches fileName False w = (res, w')
      \<longrightarrow> (\<forall>E\<in>set (calendarEvents w). \<exists>E'\<in>set (calendarEvents w').
              db_id E' = db_id E \<and> db_status E' = db_status E)
        \<and> (\<forall>s. res = Inr s \<longrightarrow> archivedCount s = 0))
   \<and> (importLoop matches emptySummary {} w = (summary, seen, w1)
        \<and> importBfvMatches matches fileName archiveMissing w = (Inr s', w'')
      \<longrightarrow> recordCounters s' = recordCounters summary)
   \<and> (importLoop matches emptySummary {} w = (summary, seen, w1)
        \<and> getBfvEventIds w1 = (Inl e, wq) \<and> seen \<noteq> {} \<and> fst (dbCall wq) = Inr ()
      \<longrightarrow> importBfvMatches matches fileName True w
            = (Inr summary, (snd (dbCall wq))\<lparr>uuids := Suc (uuids wq),
                 importHistory := importHistory wq @ [historyRow (uuids wq) summary fileName]\<rparr>))
   \<and> (importLoop matches emptySummary {} w = (summary, seen, w1)
        \<and> getBfvEventIds w1 = (Inr ids, wq)
        \<and> archiveLoop ids seen summary wq = (Inl e, sa, wa)
        \<and> seen \<noteq> {} \<and> fst (dbCall wa) = Inr ()
      \<longrightarrow> recordCounters sa = recordCounters summary
        \<and> importBfvMatches matches fileName True w
            = (Inr sa, (snd (dbCall wa))\<lparr>uuids := Suc (uuids wa),
                 importHistory := importHistory wa @ [historyRow (uuids wa) sa fileName]\<rparr>))
   \<and> (importLoop matches emptySummary {} w = (summary, seen, w1)
        \<and> (if archiveMissing \<and> seen \<noteq> {} then archivePass seen summary w1
            else (summary, w1)) = (s2, w2)
      \<longrightarrow> recordCounters s2 = recordCounters summary
        \<and> importBfvMatches matches fileName archiveMissing w
            = (case createImportHistory s2 fileName w2 of
                 (Inl e, w3) \<Rightarrow> (Inl e, w3)
               | (Inr u, w3) \<Rightarrow> (Inr s2, w3))
        \<and> (fst (dbCall w2) = Inr () \<longrightarrow>
             importBfvMatches matches fileName archiveMissing w
               = (Inr s2, (snd (dbCall w2))\<lparr>uuids := Suc (uuids w2),
                     importHistory := importHistory w2 @ [historyRow (uuids w2) s2 fileName]\<rparr>)))"
  (is "?archives \<and> ?keeps \<and> ?counters \<and> ?idQuery \<and> ?inLoop \<and> ?history")
proof -
  have 1: ?archives
    using import_archiving_no_fault [of w matches summary seen w1 fileName] by blast
  have 2: ?keeps
    using import_without_archiving [of matches fileName w res w'] by blast
  have 3: ?counters
    using importBfvMatches_counters [of matches fileName archiveMissing w s' w'' summary seen w1]
    by blast
  have 4: ?idQuery
    using failing_id_query_is_dropped [of matches w summary seen w1 e wq fileName] by blast
  have 5: ?inLoop
    using failing_archive_loop_is_dropped [of matches w summary seen w1 ids wq e sa wa fileName]
    by blast
  have 6: ?history
    using import_after_pass [of matches w summary seen w1 archiveMissing s2 w2 fileName]
    by blast
  show ?thesis
    by (rule conjI [OF 1 conjI [OF 2 conjI [OF 3 conjI [OF 4 conjI [OF 5 6]]]]])
qed

theorem archival_pass_witness:
  "importBfvMatches [exampleMatch] None True (exampleWorld [storedRowA, laterRow] [])
     = (Inr \<lparr>createdCount = 0, updatedCount = 0, unchangedCount = 1, archivedCount = 1,
              errorCount = 0, errors = []\<rparr>,
        \<lparr>calendarEvents = [storedRowA, laterRow\<lparr>db_status := ARCHIVED\<rparr>],
         fieldMappings = fieldMappings (exampleWorld [] []),
         importHistory = [\<lparr>h_id = 1, h_createdCount = 0, h_updatedCount = 0,
           h_unchangedCount = 1, h_archivedCount = 1, h_errorCount = 0,
           h_fileName = None, h_notes = None\<rparr>],
         uuids = 2, faults = []\<rparr>)
   \<and> (\<exists>E'\<in>set (calendarEvents (snd (importBfvMatches [exampleMatch] None False
                      (exampleWorld [storedRowA, laterRow] [])))).
          db_id E' = db_id laterRow \<and> db_status E' = db_status laterRow)
   \<and> db_status laterRow = ACTIVE
   \<and> getBfvEventIds (exampleWorld [storedRowA, laterRow] [Some ''connection lost''])
     = (Inl ''connection lost'', exampleWorld [storedRowA, laterRow] [])
   \<and> importBfvMatches [exampleMatch] None True
        (exampleWorld [storedRowA, laterRow] [None, None, Some ''connection lost''])
     = (Inr \<lparr>createdCount = 0, updatedCount = 0, unchangedCount = 1, archivedCount = 0,
              errorCount = 0, errors = []\<rparr>,
        \<lparr>calendarEvents = [storedRowA, laterRow],
         fieldMappings = fieldMappings (exampleWorld [] []),
         importHistory = [\<lparr>h_id = 1, h_createdCount = 0, h_updatedCount = 0,
           h_unchangedCount = 1, h_archivedCount = 0, h_errorCount = 0,
           h_fileName = None, h_notes = None\<rparr>],
         uuids = 2, faults = []\<rparr>)
   \<and> archiveLoop [''sv a|club|2026-03-01|kreisliga'', ''bfv-2'']
        {''sv a|club|2026-03-01|kreisliga''}
        \<lparr>createdCount = 0, updatedCount = 0, unchangedCount = 1, archivedCount = 0,
          errorCount = 0, errors = []\<rparr>
        (exampleWorld [storedRowA, laterRow] [None, Some ''connection lost''])
     = (Inl ''connection lost'',
        \<lparr>createdCount = 0, updatedCount = 0, unchangedCount = 1, archivedCount = 0,
          errorCount = 0, errors = []\<rparr>,
        exampleWorld [storedRowA, laterRow] [])
   \<and> importBfvMatches [exampleMatch] None True
        (exampleWorld [storedRowA, laterRow] [None, None, None, None, Some ''connection lost''])
     = (Inr \<lparr>createdCount = 0, updatedCount = 0, unchangedCount = 1, archivedCount = 0,
              errorCount = 0, errors = []\<rparr>,
        \<lparr>calendarEvents = [storedRowA, laterRow],
         fieldMappings = fieldMappings (exampleWorld [] []),
         importHistory = [\<lparr>h_id = 1, h_createdCount = 0, h_updatedCount = 0,
           h_unchangedCount = 1, h_archivedCount = 0, h_errorCount = 0,
           h_fileName = None, h_notes = None\<rparr>],
         uuids = 2, faults = []\<rparr>)
   \<and> importBfvMatches [exampleMatch] None True
        (exampleWorld [storedRowA, laterRow] [None, None, None, None, None, Some ''disk full''])
     = (Inl ''disk full'',
        \<lparr>calendarEvents = [storedRowA, laterRow\<lparr>db_status := ARCHIVED\<rparr>],
         fieldMappings = fieldMappings (exampleWorld [] []),
         importHistory = [], uuids = 2, faults = []\<rparr>)
   \<and> recordCounters \<lparr>createdCount = 0, updatedCount = 0, unchangedCount = 1,
        archivedCount = 0, errorCount = 0, errors = []\<rparr>
     = recordCounters (fst (importLoop [exampleMatch] emptySummary {}
          (exampleWorld [storedRowA, laterRow]
             [None, None, None, None, Some ''connection lost''])))"
proof -
  let ?rows = "[storedRowA, laterRow]"
  let ?K = "''sv a|club|2026-03-01|kreisliga''"
  let ?w = "exampleWorld ?rows []"
  let ?cl = "''connection lost''"
  let ?wq = "exampleWorld ?rows [None, None, Some ?cl]"
  let ?wf = "exampleWorld ?rows [None, None, None, None, Some ?cl]"
  let ?wh = "exampleWorld ?rows [None, None, None, None, None, Some ''disk full'']"
  let ?s = "\<lparr>createdCount = 0, updatedCount = 0, unchangedCount = 1, archivedCount = 0,
            errorCount = 0, errors = []\<rparr>"
  let ?s1 = "\<lparr>createdCount = 0, updatedCount = 0, unchangedCount = 1, archivedCount = 1,
            errorCount = 0, errors = []\<rparr>"
  let ?end = "\<lparr>calendarEvents = [storedRowA, laterRow],
         fieldMappings = fieldMappings (exampleWorld [] []),
         importHistory = [\<lparr>h_id = 1, h_createdCount = 0, h_updatedCount = 0,
           h_unchangedCount = 1, h_archivedCount = 0, h_errorCount = 0,
           h_fileName = None, h_notes = None\<rparr>],
         uuids = 2, faults = []\<rparr>"
  have f: "faults ?w = []" by code_simp
  have c: "constraintsOk (calendarEvents ?w)" by code_simp
  have n: "[exampleMatch] \<noteq> []" by simp
  have ne: "{?K} \<noteq> {}" by simp
  have l: "importLoop [exampleMatch] emptySummary {} ?w = (?s, {?K}, ?w)"
    by code_simp
  have r: "(Inr (?s\<lparr>archivedCount := length (filter
                (archivable {?K}) (calendarEvents ?w))\<rparr>),
          ?w\<lparr>calendarEvents :=
                map (\<lambda>r. if archivable {?K} r
                         then r\<lparr>db_status := ARCHIVED\<rparr> else r)
                  (calendarEvents ?w),
              uuids := Suc (uuids ?w),
              importHistory := importHistory ?w @
                [historyRow (uuids ?w)
                   (?s\<lparr>archivedCount := length (filter
                       (archivable {?K}) (calendarEvents ?w))\<rparr>)
                   None]\<rparr>)
     = (Inr ?s1 :: string + BfvImportSummary,
        \<lparr>calendarEvents = [storedRowA, laterRow\<lparr>db_status := ARCHIVED\<rparr>],
         fieldMappings = fieldMappings (exampleWorld [] []),
         importHistory = [\<lparr>h_id = 1, h_createdCount = 0, h_updatedCount = 0,
           h_unchangedCount = 1, h_archivedCount = 1, h_errorCount = 0,
           h_fileName = None, h_notes = None\<rparr>],
         uuids = 2, faults = []\<rparr>)"
    by code_simp
  from archival_pass [THEN conjunct1, rule_format, OF conjI [OF f conjI [OF c conjI [OF n l]]],
      of None]
  have "importBfvMatches [exampleMatch] None True ?w
     = (Inr (?s\<lparr>archivedCount := length (filter
                (archivable {?K}) (calendarEvents ?w))\<rparr>),
          ?w\<lparr>calendarEvents :=
                map (\<lambda>r. if archivable {?K} r
                         then r\<lparr>db_status := ARCHIVED\<rparr> else r)
                  (calendarEvents ?w),
              uuids := Suc (uuids ?w),
              importHistory := importHistory ?w @
                [historyRow (uuids ?w)
                   (?s\<lparr>archivedCount := length (filter
                       (archivable {?K}) (calendarEvents ?w))\<rparr>)
                   None]\<rparr>)"
    by (rule conjunct2)
  then have A: "importBfvMatches [exampleMatch] None True ?w
     = (Inr ?s1,
        \<lparr>calendarEvents = [storedRowA, laterRow\<lparr>db_status := ARCHIVED\<rparr>],
         fieldMappings = fieldMappings (exampleWorld [] []),
         importHistory = [\<lparr>h_id = 1, h_createdCount = 0, h_updatedCount = 0,
           h_unchangedCount = 1, h_archivedCount = 1, h_errorCount = 0,
           h_fileName = None, h_notes = None\<rparr>],
         uuids = 2, faults = []\<rparr>)"
    using r by (rule trans)
  have e: "calendarEvents ?w = [storedRowA, laterRow]" by code_simp
  have "importBfvMatches [exampleMatch] None False ?w
          = (fst (importBfvMatches [exampleMatch] None False ?w),
             snd (importBfvMatches [exampleMatch] None False ?w))"
    by (rule prod.collapse [symmetric])
  from archival_pass [THEN conjunct2, THEN conjunct1, rule_format, OF this]
  have "\<forall>E\<in>set [storedRowA, laterRow].
        \<exists>E'\<in>set (calendarEvents (snd (importBfvMatches [exampleMatch] None False ?w))).
          db_id E' = db_id E \<and> db_status E' = db_status E"
    unfolding e by (rule conjunct1)
  then have B: "\<exists>E'\<in>set (calendarEvents (snd (importBfvMatches [exampleMatch] None False ?w))).
          db_id E' = db_id laterRow \<and> db_status E' = db_status laterRow"
    by simp
  have B': "db_status laterRow = ACTIVE" by code_simp
  have h: "fst (dbCall ?w) = Inr ()" by code_simp
  have fin: "(Inr ?s :: string + BfvImportSummary,
              (snd (dbCall ?w))\<lparr>uuids := Suc (uuids ?w),
                 importHistory := importHistory ?w @ [historyRow (uuids ?w) ?s None]\<rparr>)
             = (Inr ?s, ?end)"
    by code_simp
  have lq: "importLoop [exampleMatch] emptySummary {} ?wq
              = (?s, {?K}, exampleWorld ?rows [Some ?cl])"
    by code_simp
  have gq: "getBfvEventIds (exampleWorld ?rows [Some ?cl]) = (Inl ?cl, ?w)"
    by code_simp
  from archival_pass [THEN conjunct2, THEN conjunct2, THEN conjunct2, THEN conjunct1,
      rule_format, OF conjI [OF lq conjI [OF gq conjI [OF ne h]]], of None]
  have C: "importBfvMatches [exampleMatch] None True ?wq = (Inr ?s, ?end)"
    using fin by (rule trans)
  have lf: "importLoop [exampleMatch] emptySummary {} ?wf
              = (?s, {?K}, ?wq)"
    by code_simp
  have gf: "getBfvEventIds ?wq = (Inr [?K, ''bfv-2''], exampleWorld ?rows [None, Some ?cl])"
    by code_simp
  have af: "archiveLoop [?K, ''bfv-2''] {?K} ?s (exampleWorld ?rows [None, Some ?cl])
              = (Inl ?cl, ?s, ?w)"
    by code_simp
  from archival_pass [THEN conjunct2, THEN conjunct2, THEN conjunct2, THEN conjunct2,
      THEN conjunct1, rule_format,
      OF conjI [OF lf conjI [OF gf conjI [OF af conjI [OF ne h]]]], of None]
  have "importBfvMatches [exampleMatch] None True ?wf
          = (Inr ?s, (snd (dbCall ?w))\<lparr>uuids := Suc (uuids ?w),
                 importHistory := importHistory ?w @ [historyRow (uuids ?w) ?s None]\<rparr>)"
    by (rule conjunct2)
  then have D: "importBfvMatches [exampleMatch] None True ?wf = (Inr ?s, ?end)"
    using fin by (rule trans)
  have lh: "importLoop [exampleMatch] emptySummary {} ?wh
              = (?s, {?K}, exampleWorld ?rows [None, None, None, Some ''disk full''])"
    by code_simp
  have ph: "(if True \<and> {?K} \<noteq> {}
             then archivePass {?K} ?s (exampleWorld ?rows [None, None, None, Some ''disk full''])
             else (?s, exampleWorld ?rows [None, None, None, Some ''disk full'']))
            = (?s1, exampleWorld [storedRowA, laterRow\<lparr>db_status := ARCHIVED\<rparr>]
                      [Some ''disk full''])"
    by code_simp
  have wr: "(case createImportHistory ?s1 None
                (exampleWorld [storedRowA, laterRow\<lparr>db_status := ARCHIVED\<rparr>]
                      [Some ''disk full'']) of
               (Inl e, w3) \<Rightarrow> (Inl e, w3)
             | (Inr u, w3) \<Rightarrow> (Inr ?s1, w3))
            = (Inl ''disk full'',
               \<lparr>calendarEvents = [storedRowA, laterRow\<lparr>db_status := ARCHIVED\<rparr>],
                fieldMappings = fieldMappings (exampleWorld [] []),
                importHistory = [], uuids = 2, faults = []\<rparr>)"
    by code_simp
  from archival_pass [THEN conjunct2, THEN conjunct2, THEN conjunct2, THEN conjunct2,
      THEN conjunct2, rule_format, OF conjI [OF lh ph], of None]
  have "importBfvMatches [exampleMatch] None True ?wh
          = (case createImportHistory ?s1 None
                (exampleWorld [storedRowA, laterRow\<lparr>db_status := ARCHIVED\<rparr>]
                      [Some ''disk full'']) of
               (Inl e, w3) \<Rightarrow> (Inl e, w3)
             | (Inr u, w3) \<Rightarrow> (Inr ?s1, w3))"
    by (rule conjunct2 [THEN conjunct1])
  then have E: "importBfvMatches [exampleMatch] None True ?wh
     = (Inl ''disk full'',
        \<lparr>calendarEvents = [storedRowA, laterRow\<lparr>db_status := ARCHIVED\<rparr>],
         fieldMappings = fieldMappings (exampleWorld [] []),
         importHistory = [], uuids = 2, faults = []\<rparr>)"
    using wr by (rule trans)
  have l3: "importLoop [exampleMatch] emptySummary {} ?wf
              = (fst (importLoop [exampleMatch] emptySummary {} ?wf),
                 fst (snd (importLoop [exampleMatch] emptySummary {} ?wf)),
                 snd (snd (importLoop [exampleMatch] emptySummary {} ?wf)))"
    by (simp only: prod.collapse)
  from archival_pass [THEN conjunct2, THEN conjunct2, THEN conjunct1, rule_format,
      OF conjI [OF l3 D]]
  have F: "recordCounters ?s
             = recordCounters (fst (importLoop [exampleMatch] emptySummary {} ?wf))" .
  from A B B' gq C af D E F show ?thesis by blast
qed

section \<open>Importing a batch twice\<close>

lemma updated_row_needs_no_update:
  "\<not> fst (matchNeedsUpdate
            (dbEventToCalendarEvent (updateFromMatch m x (defaultFieldOf fms m) r)) m
            (defaultFieldOf fms m))"
  by (cases "mappedField fms (m_team m)")
     (auto simp: matchNeedsUpdate_def dbEventToCalendarEvent_def updateFromMatch_def
        defaultFieldOf_def fieldAssign_def orNull_def truthy_def Let_def
        split: option.splits)

lemma new_row_needs_no_update:
  "\<not> fst (matchNeedsUpdate
            (dbEventToCalendarEvent (newEventFromMatch u m x (defaultFieldOf fms m))) m
            (defaultFieldOf fms m))"
  by (cases "mappedField fms (m_team m)")
     (auto simp: matchNeedsUpdate_def dbEventToCalendarEvent_def newEventFromMatch_def
        defaultFieldOf_def fieldAssign_def orNull_def truthy_def Let_def
        split: option.splits)

lemma settled_found:
  assumes "settled rows fms m" "distinct (externalKeys rows)"
  shows "\<exists>r. resolveExisting rows m (generateExternalId m) = Some (dbEventToCalendarEvent r)
           \<and> \<not> fst (matchNeedsUpdate (dbEventToCalendarEvent r) m (defaultFieldOf fms m))"
proof -
  let ?P = "\<lambda>r. db_source r = BFV \<and> db_externalId r = Some (generateExternalId m)"
  from assms(1) obtain r0 where r0: "r0 \<in> set rows" "?P r0"
    "\<not> fst (matchNeedsUpdate (dbEventToCalendarEvent r0) m (defaultFieldOf fms m))"
    unfolding settled_def by blast
  then obtain r where r: "find ?P rows = Some r"
    by (cases "find ?P rows") (auto simp: find_None_iff)
  then have "r \<in> set rows" "?P r" by (auto simp: find_Some_iff)
  with same_key_same_row [OF assms(2) _ r0(1), of r] r0(2) have "r = r0" by simp
  with r r0(3) show ?thesis by (auto simp: resolveExisting_def)
qed

lemma settled_step_unchanged:
  assumes "settled (calendarEvents w) (fieldMappings w) m"
    and "constraintsOk (calendarEvents w)"
    and "processMatch m (generateExternalId m) w = (res, w')"
  shows "calendarEvents w' = calendarEvents w \<and> fieldMappings w' = fieldMappings w
         \<and> (case res of Inl e \<Rightarrow> True | Inr oc \<Rightarrow> \<exists>i. oc = Unchanged i)"
proof (cases res)
  case (Inl e)
  with processMatch_result [OF assms(3)] show ?thesis by simp
next
  case (Inr oc)
  with processMatch_result [OF assms(3)]
  have s: "stepRows (calendarEvents w) (fieldMappings w) (uuids w) m (generateExternalId m)
             = (oc, calendarEvents w')"
    and f: "fieldMappings w' = fieldMappings w"
    by simp_all
  from assms(2) have "distinct (externalKeys (calendarEvents w))"
    by (simp add: constraintsOk_def)
  from settled_found [OF assms(1) this] obtain r where
    "resolveExisting (calendarEvents w) m (generateExternalId m)
       = Some (dbEventToCalendarEvent r)"
    "\<not> fst (matchNeedsUpdate (dbEventToCalendarEvent r) m
              (defaultFieldOf (fieldMappings w) m))"
    by blast
  with s have "oc = Unchanged (ev_id (dbEventToCalendarEvent r))"
    "calendarEvents w' = calendarEvents w"
    by (simp_all add: stepRows_def)
  with f Inr show ?thesis by simp
qed

lemma reimport_loop:
  assumes "importLoop todo s seen w = (s', seen', w')"
    and "constraintsOk (calendarEvents w)"
    and "\<forall>m\<in>set todo. settled (calendarEvents w) (fieldMappings w) m"
  shows "createdCount s' = createdCount s \<and> updatedCount s' = updatedCount s
         \<and> calendarEvents w' = calendarEvents w"
  using assms
proof (induction todo arbitrary: s seen w)
  case Nil
  then show ?case by simp
next
  case (Cons m ms)
  obtain res w1 where p: "processMatch m (generateExternalId m) w = (res, w1)"
    by (cases "processMatch m (generateExternalId m) w")
  with Cons.prems(1) have l: "importLoop ms (recordOutcome m res s)
      (insert (generateExternalId m) seen) w1 = (s', seen', w')"
    by (simp add: Let_def)
  from Cons.prems(3) have "settled (calendarEvents w) (fieldMappings w) m" by simp
  from settled_step_unchanged [OF this Cons.prems(2) p]
  have k: "calendarEvents w1 = calendarEvents w" "fieldMappings w1 = fieldMappings w"
    and o: "case res of Inl e \<Rightarrow> True | Inr oc \<Rightarrow> \<exists>i. oc = Unchanged i"
    by simp_all
  from o have c: "createdCount (recordOutcome m res s) = createdCount s"
    "updatedCount (recordOutcome m res s) = updatedCount s"
    by (auto simp: recordOutcome_def split: sum.splits)
  have "constraintsOk (calendarEvents w1)"
    "\<forall>m\<in>set ms. settled (calendarEvents w1) (fieldMappings w1) m"
    using Cons.prems(2,3) k by simp_all
  from Cons.IH [OF l this] c k show ?case by simp
qed

lemma recordOutcome_errorCount:
  "errorCount (recordOutcome m res s) = errorCount s + (case res of Inl _ \<Rightarrow> 1 | Inr _ \<Rightarrow> 0)"
  by (simp add: recordOutcome_def split: sum.splits Outcome.splits)

lemma importLoop_errorCount_mono:
  "importLoop ms s seen w = (s', seen', w') \<Longrightarrow> errorCount s \<le> errorCount s'"
proof (induction ms arbitrary: s seen w)
  case Nil
  then show ?case by simp
next
  case (Cons m ms)
  obtain res w1 where p: "processMatch m (generateExternalId m) w = (res, w1)"
    by (cases "processMatch m (generateExternalId m) w")
  with Cons.prems have "importLoop ms (recordOutcome m res s)
      (insert (generateExternalId m) seen) w1 = (s', seen', w')"
    by (simp add: Let_def)
  from Cons.IH [OF this] show ?case by (simp add: recordOutcome_errorCount)
qed

lemma resolved_by_id:
  assumes "sameFixtureSameId rows batch" "m \<in> set batch"
    and "resolveExisting rows m (generateExternalId m) = Some e"
  shows "\<exists>r\<in>set rows. db_source r = BFV \<and> db_externalId r = Some (generateExternalId m)
           \<and> e = dbEventToCalendarEvent r"
proof (cases "find (\<lambda>r. db_source r = BFV \<and> db_externalId r = Some (generateExternalId m)) rows")
  case (Some r)
  with assms(3) show ?thesis by (auto simp: resolveExisting_def find_Some_iff)
next
  case None
  with assms(3) obtain r where
    "find (\<lambda>r. db_source r = BFV \<and> db_teamHome r = Some (m_teamHome m)
              \<and> db_teamAway r = Some (m_teamAway m) \<and> db_status r = ACTIVE) rows = Some r"
    by (auto simp: resolveExisting_def)
  then have r: "r \<in> set rows" "db_source r = BFV" "db_status r = ACTIVE"
    "db_teamHome r = Some (m_teamHome m)" "db_teamAway r = Some (m_teamAway m)"
    by (auto simp: find_Some_iff)
  with assms(1,2) have "db_externalId r = Some (generateExternalId m)"
    unfolding sameFixtureSameId_def by blast
  with None r(1,2) show ?thesis by (auto simp: find_None_iff)
qed

lemma first_run_step:
  assumes ok: "constraintsOk rows"
    and I: "sameFixtureSameId rows batch"
    and mb: "m \<in> set batch"
    and inj: "\<forall>m'\<in>set batch. m_teamHome m' = m_teamHome m \<and> m_teamAway m' = m_teamAway m
                \<longrightarrow> generateExternalId m' = generateExternalId m"
    and D: "\<forall>m0\<in>D. settled rows fms m0 \<and> generateExternalId m0 \<noteq> generateExternalId m"
    and s: "stepRows rows fms u m (generateExternalId m) = (oc, rows')"
    and ok': "rows' = rows \<or> constraintsOk rows'"
  shows "constraintsOk rows' \<and> sameFixtureSameId rows' batch \<and> settled rows' fms m
         \<and> (\<forall>m0\<in>D. settled rows' fms m0)"
proof -
  let ?x = "generateExternalId m"
  let ?df = "defaultFieldOf fms m"
  have c': "constraintsOk rows'" using ok ok' by auto
  show ?thesis
  proof (cases "resolveExisting rows m ?x")
    case None
    with s have r': "rows' = rows @ [newEventFromMatch u m ?x ?df]"
      by (simp add: stepRows_def)
    let ?n = "newEventFromMatch u m ?x ?df"
    have n: "db_source ?n = BFV" "db_externalId ?n = Some ?x"
      "db_teamHome ?n = Some (m_teamHome m)" "db_teamAway ?n = Some (m_teamAway m)"
      by (simp_all add: newEventFromMatch_def)
    have "settled rows' fms m"
      unfolding settled_def r' using n new_row_needs_no_update [of u m ?x fms] by auto
    moreover have "\<forall>m0\<in>D. settled rows' fms m0"
      using D unfolding settled_def r' by auto
    moreover have "sameFixtureSameId rows' batch"
      unfolding sameFixtureSameId_def r'
    proof (intro ballI impI)
      fix r m' assume a: "r \<in> set (rows @ [?n])" "m' \<in> set batch"
        "db_source r = BFV \<and> db_status r = ACTIVE
         \<and> db_teamHome r = Some (m_teamHome m') \<and> db_teamAway r = Some (m_teamAway m')"
      show "db_externalId r = Some (generateExternalId m')"
      proof (cases "r = ?n")
        case True
        with a(3) n have "m_teamHome m' = m_teamHome m \<and> m_teamAway m' = m_teamAway m" by simp
        with inj a(2) have "generateExternalId m' = ?x" by blast
        with True n show ?thesis by simp
      next
        case False
        with a(1) have "r \<in> set rows" by simp
        with I a(2,3) show ?thesis unfolding sameFixtureSameId_def by blast
      qed
    qed
    ultimately show ?thesis using c' by blast
  next
    case (Some e)
    from resolved_by_id [OF I mb Some] obtain r where
      r: "r \<in> set rows" "db_source r = BFV" "db_externalId r = Some ?x"
        "e = dbEventToCalendarEvent r"
      by blast
    have ei: "ev_id e = db_id r" using r(4) by (simp add: dbEventToCalendarEvent_def)
    show ?thesis
    proof (cases "fst (matchNeedsUpdate e m ?df)")
      case False
      with s Some have r': "rows' = rows" by (simp add: stepRows_def)
      have "settled rows fms m"
        unfolding settled_def using r False by blast
      with r' I D c' show ?thesis by simp
    next
      case True
      let ?g = "\<lambda>a. if db_id a = db_id r then updateFromMatch m ?x ?df a else a"
      from s Some True ei have r': "rows' = map ?g rows" by (simp add: stepRows_def)
      have dids: "distinct (map db_id rows)" using ok by (simp add: constraintsOk_def)
      have img: "?g a \<in> set rows'" if "a \<in> set rows" for a
      proof -
        from that have "?g a \<in> ?g ` set rows" by (rule imageI)
        then show ?thesis unfolding r' by (simp only: set_map)
      qed
      have u: "db_source (?g r) = BFV" "db_externalId (?g r) = Some ?x"
        using r(2) by (simp_all add: updateFromMatch_def)
      have "\<not> fst (matchNeedsUpdate (dbEventToCalendarEvent (?g r)) m ?df)"
        using updated_row_needs_no_update [of m ?x fms r] by simp
      with img [OF r(1)] u have "settled rows' fms m"
        unfolding settled_def by blast
      moreover have "\<forall>m0\<in>D. settled rows' fms m0"
      proof
        fix m0 assume "m0 \<in> D"
        with D obtain r0 where r0: "r0 \<in> set rows" "db_source r0 = BFV"
          "db_externalId r0 = Some (generateExternalId m0)"
          "\<not> fst (matchNeedsUpdate (dbEventToCalendarEvent r0) m0 (defaultFieldOf fms m0))"
          and ne: "generateExternalId m0 \<noteq> ?x"
          unfolding settled_def by blast
        from ne r0(3) r(3) have "r0 \<noteq> r" by auto
        with same_id_same_row [OF dids r0(1) r(1)] have "db_id r0 \<noteq> db_id r" by blast
        then have "?g r0 = r0" by simp
        with img [OF r0(1)] have "r0 \<in> set rows'" by (simp only:)
        with r0 show "settled rows' fms m0" unfolding settled_def by blast
      qed
      moreover have "sameFixtureSameId rows' batch"
        unfolding sameFixtureSameId_def
      proof (intro ballI impI)
        fix a' m' assume a: "a' \<in> set rows'" "m' \<in> set batch"
          "db_source a' = BFV \<and> db_status a' = ACTIVE
           \<and> db_teamHome a' = Some (m_teamHome m') \<and> db_teamAway a' = Some (m_teamAway m')"
        from a(1) obtain a0 where a0: "a0 \<in> set rows" "a' = ?g a0"
          unfolding r' by auto
        show "db_externalId a' = Some (generateExternalId m')"
        proof (cases "db_id a0 = db_id r")
          case True
          with a0(2) have e: "a' = updateFromMatch m ?x ?df a0" by simp
          then have "db_teamHome a' = Some (m_teamHome m)" "db_teamAway a' = Some (m_teamAway m)"
            "db_externalId a' = Some ?x"
            by (simp_all add: updateFromMatch_def)
          with a(3) inj a(2) show ?thesis by auto
        next
          case False
          with a0(2) have "a' = a0" by simp
          with a0(1) I a(2,3) show ?thesis unfolding sameFixtureSameId_def by blast
        qed
      qed
      ultimately show ?thesis using c' by blast
    qed
  qed
qed

lemma first_run_loop:
  assumes "importLoop todo s seen w = (s', seen', w')" "errorCount s' = errorCount s"
    and "constraintsOk (calendarEvents w)" "sameFixtureSameId (calendarEvents w) batch"
    and "\<forall>m0\<in>D. settled (calendarEvents w) (fieldMappings w) m0"
    and "set todo \<subseteq> set batch" "distinct (map generateExternalId todo)"
    and "\<forall>m0\<in>D. generateExternalId m0 \<notin> set (map generateExternalId todo)"
    and "\<forall>m\<in>set batch. \<forall>m'\<in>set batch.
            m_teamHome m' = m_teamHome m \<and> m_teamAway m' = m_teamAway m
            \<longrightarrow> generateExternalId m' = generateExternalId m"
  shows "constraintsOk (calendarEvents w')
         \<and> (\<forall>m0\<in>D \<union> set todo. settled (calendarEvents w') (fieldMappings w') m0)
         \<and> fieldMappings w' = fieldMappings w"
  using assms(1-8)
proof (induction todo arbitrary: s seen w D)
  case Nil
  then show ?case by simp
next
  case (Cons m ms)
  obtain res w1 where p: "processMatch m (generateExternalId m) w = (res, w1)"
    by (cases "processMatch m (generateExternalId m) w")
  with Cons.prems(1) have l: "importLoop ms (recordOutcome m res s)
      (insert (generateExternalId m) seen) w1 = (s', seen', w')"
    by (simp add: Let_def)
  from importLoop_errorCount_mono [OF l] Cons.prems(2)
  have e: "errorCount (recordOutcome m res s) = errorCount s"
    and e': "errorCount s' = errorCount (recordOutcome m res s)"
    by (simp_all add: recordOutcome_errorCount split: sum.splits)
  then obtain oc where oc: "res = Inr oc"
    by (cases res) (simp_all add: recordOutcome_errorCount)
  from processMatch_result [OF p] oc
  have st: "stepRows (calendarEvents w) (fieldMappings w) (uuids w) m (generateExternalId m)
              = (oc, calendarEvents w1)"
    and ok1: "calendarEvents w1 = calendarEvents w \<or> constraintsOk (calendarEvents w1)"
    and fm: "fieldMappings w1 = fieldMappings w"
    by simp_all
  from Cons.prems(6) have mb: "m \<in> set batch" by simp
  from assms(9) mb have inj: "\<forall>m'\<in>set batch.
      m_teamHome m' = m_teamHome m \<and> m_teamAway m' = m_teamAway m
      \<longrightarrow> generateExternalId m' = generateExternalId m"
    by blast
  from Cons.prems(5,8) have D: "\<forall>m0\<in>D. settled (calendarEvents w) (fieldMappings w) m0
      \<and> generateExternalId m0 \<noteq> generateExternalId m"
    by auto
  from first_run_step [OF Cons.prems(3,4) mb inj D st ok1]
  have c1: "constraintsOk (calendarEvents w1)"
    and i1: "sameFixtureSameId (calendarEvents w1) batch"
    and s1: "\<forall>m0\<in>insert m D. settled (calendarEvents w1) (fieldMappings w1) m0"
    by (simp_all add: fm)
  have t: "set ms \<subseteq> set batch" "distinct (map generateExternalId ms)"
    "\<forall>m0\<in>insert m D. generateExternalId m0 \<notin> set (map generateExternalId ms)"
    using Cons.prems(6,7,8) by auto
  from Cons.IH [OF l e' c1 i1 s1 t] fm show ?case by auto
qed

lemma eraseStatus_simps [simp]:
  "db_id (eraseStatus r) = db_id r" "db_source (eraseStatus r) = db_source r"
  "db_externalId (eraseStatus r) = db_externalId r"
  "dbEventToCalendarEvent (eraseStatus r) = dbEventToCalendarEvent r"
  by (simp_all add: eraseStatus_def dbEventToCalendarEvent_def)

lemma eraseStatus_status [simp]: "eraseStatus (r\<lparr>db_status := s\<rparr>) = eraseStatus r"
  by (simp add: eraseStatus_def)

lemma externalKeys_Nil [simp]: "externalKeys [] = []"
  by (simp add: externalKeys_def List.map_filter_simps)

lemma externalKeys_eraseStatus: "externalKeys (map eraseStatus rows) = externalKeys rows"
  by (induction rows) (simp_all add: externalKeys_Cons split: option.splits)

lemma constraintsOk_erased:
  assumes "map eraseStatus rows' = map eraseStatus rows" "constraintsOk rows"
  shows "constraintsOk rows'"
proof -
  have "map db_id rows' = map db_id (map eraseStatus rows')" by simp
  also have "\<dots> = map db_id (map eraseStatus rows)" by (simp only: assms(1))
  also have "\<dots> = map db_id rows" by simp
  finally have i: "map db_id rows' = map db_id rows" .
  have "externalKeys rows' = externalKeys (map eraseStatus rows')"
    by (simp only: externalKeys_eraseStatus)
  also have "\<dots> = externalKeys rows" by (simp only: assms(1) externalKeys_eraseStatus)
  finally show ?thesis using assms(2) i by (simp only: constraintsOk_def)
qed

lemma settled_erased:
  assumes "map eraseStatus rows' = map eraseStatus rows" "settled rows fms m"
  shows "settled rows' fms m"
proof -
  from assms(2) obtain r where r: "r \<in> set rows" "db_source r = BFV"
    "db_externalId r = Some (generateExternalId m)"
    "\<not> fst (matchNeedsUpdate (dbEventToCalendarEvent r) m (defaultFieldOf fms m))"
    unfolding settled_def by blast
  from r(1) have "eraseStatus r \<in> set (map eraseStatus rows)" by simp
  then have "eraseStatus r \<in> set (map eraseStatus rows')" by (simp only: assms(1))
  then obtain r' where r': "r' \<in> set rows'" "eraseStatus r' = eraseStatus r" by auto
  from r'(2) have "db_source r' = db_source r" "db_externalId r' = db_externalId r"
    "dbEventToCalendarEvent r' = dbEventToCalendarEvent r"
    by (metis eraseStatus_simps)+
  with r r'(1) show ?thesis unfolding settled_def by auto
qed

lemma archive_update_erased:
  "map eraseStatus (map (\<lambda>r. if db_id r = i then r\<lparr>db_status := ARCHIVED\<rparr> else r) rows)
     = map eraseStatus rows"
  by (induction rows) simp_all

lemma archiveLoop_erased:
  "archiveLoop ids seen summary w = (r, summary', w')
     \<Longrightarrow> map eraseStatus (calendarEvents w') = map eraseStatus (calendarEvents w)
         \<and> fieldMappings w' = fieldMappings w"
proof (induction ids arbitrary: summary w)
  case Nil
  then show ?case by simp
next
  case (Cons x ids)
  show ?case
  proof (cases "x \<in> seen")
    case True
    with Cons show ?thesis by simp
  next
    case False
    obtain r1 w1 where s: "selectFirst (\<lambda>r. db_externalId r = Some x \<and> db_source r = BFV
                                \<and> db_status r = ACTIVE) w = (r1, w1)"
      by (cases "selectFirst (\<lambda>r. db_externalId r = Some x \<and> db_source r = BFV
                                \<and> db_status r = ACTIVE) w")
    from selectFirst_result [OF s]
    have k1: "calendarEvents w1 = calendarEvents w" "fieldMappings w1 = fieldMappings w"
      by (simp_all add: sameTables_def)
    show ?thesis
    proof (cases r1)
      case (Inl e)
      with Cons.prems False s k1 show ?thesis by simp
    next
      case (Inr found)
      show ?thesis
      proof (cases found)
        case None
        with Cons.prems False s Inr have "archiveLoop ids seen summary w1 = (r, summary', w')"
          by simp
        from Cons.IH [OF this] k1 show ?thesis by simp
      next
        case (Some event)
        obtain r2 w2 where u: "updateCalendarEventWhereId (db_id event)
            (\<lambda>r. r\<lparr>db_status := ARCHIVED\<rparr>) w1 = (r2, w2)"
          by (cases "updateCalendarEventWhereId (db_id event)
            (\<lambda>r. r\<lparr>db_status := ARCHIVED\<rparr>) w1")
        from updateCalendarEventWhereId_result [OF u] k1
        have k2: "map eraseStatus (calendarEvents w2) = map eraseStatus (calendarEvents w)"
          "fieldMappings w2 = fieldMappings w"
          by (auto split: sum.splits simp: archive_update_erased simp del: map_map)
        show ?thesis
        proof (cases r2)
          case (Inl e)
          with Cons.prems False s \<open>r1 = Inr found\<close> Some u k2 show ?thesis by simp
        next
          case (Inr u2)
          with Cons.prems False s \<open>r1 = Inr found\<close> Some u
          have "archiveLoop ids seen (summary\<lparr>archivedCount := archivedCount summary + 1\<rparr>) w2
              = (r, summary', w')"
            by simp
          from Cons.IH [OF this] k2 show ?thesis by simp
        qed
      qed
    qed
  qed
qed

lemma getBfvEventIds_result:
  assumes "getBfvEventIds w = (r, w')"
  shows "sameTables w w'"
  using assms unfolding getBfvEventIds_def
  by (elim andThenE) (auto dest!: dbCall_sameTables simp: sameTables_def)

lemma archivePass_erased:
  assumes "archivePass seen summary w = (summary', w')"
  shows "map eraseStatus (calendarEvents w') = map eraseStatus (calendarEvents w)
         \<and> fieldMappings w' = fieldMappings w"
proof -
  obtain r1 w1 where g: "getBfvEventIds w = (r1, w1)" by (cases "getBfvEventIds w")
  from getBfvEventIds_result [OF g]
  have k: "calendarEvents w1 = calendarEvents w" "fieldMappings w1 = fieldMappings w"
    by (simp_all add: sameTables_def)
  show ?thesis
  proof (cases r1)
    case (Inl e)
    with assms g k show ?thesis by (simp add: archivePass_def)
  next
    case (Inr ids)
    obtain r2 s2 w2 where a: "archiveLoop ids seen summary w1 = (r2, s2, w2)"
      by (cases "archiveLoop ids seen summary w1")
    with assms g Inr have "w' = w2" by (simp add: archivePass_def)
    with archiveLoop_erased [OF a] k show ?thesis by simp
  qed
qed

lemma import_result_tables:
  assumes "importBfvMatches ms fileName archiveMissing w = (Inr first, w1)"
    and l: "importLoop ms emptySummary {} w = (s, seen, wl)"
  shows "map eraseStatus (calendarEvents w1) = map eraseStatus (calendarEvents wl)
         \<and> fieldMappings w1 = fieldMappings wl"
proof -
  obtain s2 w2 where a: "(if archiveMissing \<and> seen \<noteq> {} then archivePass seen s wl
      else (s, wl)) = (s2, w2)"
    by (cases "if archiveMissing \<and> seen \<noteq> {} then archivePass seen s wl else (s, wl)")
  then have k: "map eraseStatus (calendarEvents w2) = map eraseStatus (calendarEvents wl)
         \<and> fieldMappings w2 = fieldMappings wl"
    by (auto split: if_splits dest: archivePass_erased)
  from assms a have "andThen (createImportHistory s2 fileName) (\<lambda>_. ret s2) w2 = (Inr first, w1)"
    by (simp add: importBfvMatches_def)
  then have "calendarEvents w1 = calendarEvents w2 \<and> fieldMappings w1 = fieldMappings w2"
    by (cases rule: andThenE) (auto dest!: createImportHistory_result simp: ret_def)
  with k show ?thesis by simp
qed

text \<open>
  Claim C1 (as amended). Take a calendar that satisfies its constraints and a batch whose
  records have pairwise distinct external ids and pairwise distinct pairs of team names,
  such that no active BFV event carries the team names of a record under another
  external id. If the first import of the batch reports no error, a second import of the
  same batch on the calendar the first one left, whatever calls fail in it, creates
  nothing and updates nothing, and its unchangedCount is the size of the batch minus the
  records that failed in it.
\<close>

theorem reimport_idempotent:
  assumes "constraintsOk (calendarEvents w)"
    and "distinct (map generateExternalId matches)"
    and "distinct (map (\<lambda>m. (m_teamHome m, m_teamAway m)) matches)"
    and "\<forall>r\<in>set (calendarEvents w). \<forall>m\<in>set matches.
           db_source r = BFV \<and> db_status r = ACTIVE
           \<and> db_teamHome r = Some (m_teamHome m) \<and> db_teamAway r = Some (m_teamAway m)
           \<longrightarrow> db_externalId r = Some (generateExternalId m)"
    and "importBfvMatches matches fileName archiveMissing w = (Inr first, w1)"
    and "errorCount first = 0"
    and "importBfvMatches matches fileName' archiveMissing' (w1\<lparr>faults := fs\<rparr>)
           = (Inr second, w2)"
  shows "createdCount second = 0 \<and> updatedCount second = 0
         \<and> unchangedCount second = length matches - errorCount second"
proof -
  obtain s seen wl where l: "importLoop matches emptySummary {} w = (s, seen, wl)"
    by (cases "importLoop matches emptySummary {} w")
  from importBfvMatches_counters [OF assms(5) l] assms(6)
  have h2: "errorCount s = errorCount emptySummary"
    by (simp add: recordCounters_def emptySummary_def)
  have h4: "sameFixtureSameId (calendarEvents w) matches"
    using assms(4) by (simp only: sameFixtureSameId_def)
  have h5: "\<forall>m0\<in>{}. settled (calendarEvents w) (fieldMappings w) m0" by simp
  have h6: "set matches \<subseteq> set matches" by simp
  have h8: "\<forall>m0\<in>{}. generateExternalId m0 \<notin> set (map generateExternalId matches)" by simp
  have h9: "\<forall>m\<in>set matches. \<forall>m'\<in>set matches.
            m_teamHome m' = m_teamHome m \<and> m_teamAway m' = m_teamAway m
            \<longrightarrow> generateExternalId m' = generateExternalId m"
  proof (intro ballI impI)
    fix m m' assume m: "m \<in> set matches" "m' \<in> set matches"
      and t: "m_teamHome m' = m_teamHome m \<and> m_teamAway m' = m_teamAway m"
    from assms(3) have "inj_on (\<lambda>m. (m_teamHome m, m_teamAway m)) (set matches)"
      by (simp only: distinct_map)
    moreover from t have "(m_teamHome m', m_teamAway m') = (m_teamHome m, m_teamAway m)"
      by simp
    ultimately have "m' = m" using m(2,1) by (rule inj_onD)
    then show "generateExternalId m' = generateExternalId m" by (simp only:)
  qed
  from first_run_loop [OF l h2 assms(1) h4 h5 h6 assms(2) h8 h9]
  have cl: "constraintsOk (calendarEvents wl)"
    and sl: "\<forall>m\<in>set matches. settled (calendarEvents wl) (fieldMappings wl) m"
    by auto
  from import_result_tables [OF assms(5) l]
  have e: "map eraseStatus (calendarEvents w1) = map eraseStatus (calendarEvents wl)"
    and f: "fieldMappings w1 = fieldMappings wl"
    by simp_all
  let ?w = "w1\<lparr>faults := fs\<rparr>"
  have c1: "constraintsOk (calendarEvents ?w)"
    using constraintsOk_erased [OF e cl] by simp
  have s1: "\<forall>m\<in>set matches. settled (calendarEvents ?w) (fieldMappings ?w) m"
    using settled_erased [OF e] sl f by simp
  obtain s' seen' wl' where l': "importLoop matches emptySummary {} ?w = (s', seen', wl')"
    by (cases "importLoop matches emptySummary {} ?w")
  from reimport_loop [OF l' c1 s1]
  have "createdCount s' = 0" "updatedCount s' = 0"
    by (simp_all add: emptySummary_def)
  moreover from importLoop_counted [OF l']
  have "recordsCounted s' = length matches"
    by (simp add: recordsCounted_def emptySummary_def)
  moreover from importBfvMatches_counters [OF assms(7) l']
  have "createdCount second = createdCount s'" "updatedCount second = updatedCount s'"
    "unchangedCount second = unchangedCount s'" "errorCount second = errorCount s'"
    by (simp_all add: recordCounters_def)
  ultimately have "createdCount second = 0" "updatedCount second = 0"
    "unchangedCount second + errorCount second = length matches"
    by (simp_all add: recordsCounted_def)
  then show ?thesis by arith
qed

theorem reimport_idempotent_witness:
  "fst (importBfvMatches twoFixtures None True (exampleWorld [storedRow, otherRow] []))
     = Inr \<lparr>createdCount = 1, updatedCount = 1, unchangedCount = 0, archivedCount = 1,
            errorCount = 0, errors = []\<rparr>
   \<and> fst (importBfvMatches twoFixtures None True
          ((snd (importBfvMatches twoFixtures None True (exampleWorld [storedRow, otherRow] [])))
             \<lparr>faults := [None, None, Some ''timeout'']\<rparr>))
     = Inr \<lparr>createdCount = 0, updatedCount = 0, unchangedCount = 1, archivedCount = 0,
            errorCount = 1, errors = [''Fehler bei SV B vs Club: timeout'']\<rparr>
   \<and> unchangedCount \<lparr>createdCount = 0, updatedCount = 0, unchangedCount = 1,
         archivedCount = 0, errorCount = 1,
         errors = [''Fehler bei SV B vs Club: timeout'']\<rparr>
     = length twoFixtures
       - errorCount \<lparr>createdCount = 0, updatedCount = 0, unchangedCount = 1,
           archivedCount = 0, errorCount = 1,
           errors = [''Fehler bei SV B vs Club: timeout'']\<rparr>"
proof -
  let ?w = "exampleWorld [storedRow, otherRow] []"
  let ?first = "\<lparr>createdCount = 1, updatedCount = 1, unchangedCount = 0, archivedCount = 1,
            errorCount = 0, errors = []\<rparr>"
  let ?second = "\<lparr>createdCount = 0, updatedCount = 0, unchangedCount = 1, archivedCount = 0,
            errorCount = 1, errors = [''Fehler bei SV B vs Club: timeout'']\<rparr>"
  let ?w1 = "snd (importBfvMatches twoFixtures None True ?w)"
  have 1: "constraintsOk (calendarEvents ?w)" by code_simp
  have 2: "distinct (map generateExternalId twoFixtures)" by code_simp
  have 3: "distinct (map (\<lambda>m. (m_teamHome m, m_teamAway m)) twoFixtures)" by code_simp
  have 4: "\<forall>r\<in>set (calendarEvents ?w). \<forall>m\<in>set twoFixtures.
           db_source r = BFV \<and> db_status r = ACTIVE
           \<and> db_teamHome r = Some (m_teamHome m) \<and> db_teamAway r = Some (m_teamAway m)
           \<longrightarrow> db_externalId r = Some (generateExternalId m)"
    by code_simp
  have a: "fst (importBfvMatches twoFixtures None True ?w) = Inr ?first" by code_simp
  then have 5: "importBfvMatches twoFixtures None True ?w = (Inr ?first, ?w1)"
    by (metis prod.collapse)
  have 6: "errorCount ?first = 0" by simp
  have b: "fst (importBfvMatches twoFixtures None True
             (?w1\<lparr>faults := [None, None, Some ''timeout'']\<rparr>)) = Inr ?second"
    by code_simp
  then have 7: "importBfvMatches twoFixtures None True
             (?w1\<lparr>faults := [None, None, Some ''timeout'']\<rparr>)
      = (Inr ?second, snd (importBfvMatches twoFixtures None True
             (?w1\<lparr>faults := [None, None, Some ''timeout'']\<rparr>)))"
    by (metis prod.collapse)
  from reimport_idempotent [OF 1 2 3 4 5 6 7]
  have "unchangedCount ?second = length twoFixtures - errorCount ?second" by blast
  with a b show ?thesis by blast
qed

theorem reimport_not_idempotent_counterexample:
  "fst (importBfvMatches [exampleMatch, exampleMatch\<lparr>m_startTime := ''16:00''\<rparr>] None False
          (snd (importBfvMatches [exampleMatch, exampleMatch\<lparr>m_startTime := ''16:00''\<rparr>]
                  None False (exampleWorld [] []))))
     = Inr \<lparr>createdCount = 0, updatedCount = 2, unchangedCount = 0, archivedCount = 0,
            errorCount = 0, errors = []\<rparr>
   \<and> fst (importBfvMatches [renumberedMatch] None True
          (snd (importBfvMatches [renumberedMatch] None True (exampleWorld [storedRowA] []))))
     = Inr \<lparr>createdCount = 1, updatedCount = 0, unchangedCount = 0, archivedCount = 0,
            errorCount = 0, errors = []\<rparr>
   \<and> fst (importBfvMatches
            [renumberedMatch,
             renumberedMatch\<lparr>m_externalId := ''bfv-4712'', m_date := ''2026-05-10''\<rparr>]
            None False
          (snd (importBfvMatches
                  [renumberedMatch,
                   renumberedMatch\<lparr>m_externalId := ''bfv-4712'', m_date := ''2026-05-10''\<rparr>]
                  None False (exampleWorld [] []))))
     = Inr \<lparr>createdCount = 0, updatedCount = 2, unchangedCount = 0, archivedCount = 0,
            errorCount = 0, errors = []\<rparr>"
  by code_simp

end
